theory Spec2Isabelle
  imports Main
begin

section \<open>Text\<close>

text \<open>
  Titles, descriptions, identifiers and keywords are \<open>string\<close>s. The source lowercases
  with \<open>str.lower()\<close>; the model lowercases the letters A to Z and leaves every other
  character as it is, which is what \<open>str.lower()\<close> does on ASCII text. A character
  outside ASCII is the sequence of its UTF-8 bytes and is left as it is: the model covers
  the texts whose characters outside ASCII have no lowercase form of their own, and a
  title or description with another character (the Kelvin sign, a capital letter with an
  accent) is outside it. The general properties below hold whatever the lowercasing
  function is; its equations are used only to evaluate the example rows and the four
  phase ids.
\<close>

definition lower_char :: "char \<Rightarrow> char" where
  "lower_char c =
     (case map_of (zip ''ABCDEFGHIJKLMNOPQRSTUVWXYZ'' ''abcdefghijklmnopqrstuvwxyz'') c of
        Some l \<Rightarrow> l
      | None \<Rightarrow> c)"

definition lower :: "string \<Rightarrow> string" where
  "lower s = map lower_char s"

fun starts_with :: "string \<Rightarrow> string \<Rightarrow> bool" where
  "starts_with [] s = True"
| "starts_with (k # ks) [] = False"
| "starts_with (k # ks) (c # cs) = (k = c \<and> starts_with ks cs)"

text \<open>\<open>str_in k s\<close> is Python's \<open>k in s\<close> on strings: \<open>k\<close> occurs in \<open>s\<close> as a substring.\<close>

fun str_in :: "string \<Rightarrow> string \<Rightarrow> bool" where
  "str_in k [] = (k = [])"
| "str_in k (c # cs) = (starts_with k (c # cs) \<or> str_in k cs)"

text \<open>\<open>any_in ks s\<close> is \<open>any(keyword in s for keyword in ks)\<close>.\<close>

definition any_in :: "string list \<Rightarrow> string \<Rightarrow> bool" where
  "any_in ks s = list_ex (\<lambda>keyword. str_in keyword s) ks"

section \<open>Stored values\<close>

text \<open>
  The store keeps the fields \<open>child_tasks\<close>, \<open>depends_on_tasks\<close> and \<open>notes\<close> as
  text holding an encoded array. A decoded value is a \<open>json\<close>; numbers are never
  inspected by this module, so they carry an integer only.
\<close>

datatype json =
    JNull
  | JBool bool
  | JNum int
  | JStr string
  | JArr "json list"
  | JObj "(string \<times> json) list"

text \<open>
  A nullable text column that is meant to hold JSON is represented by what
  \<open>json.loads\<close> makes of it: \<open>SqlNull\<close> is NULL (Python \<open>None\<close>), \<open>BadText s\<close> is
  a text \<open>s\<close> on which \<open>json.loads\<close> raises, and \<open>JsonText j\<close> is a text that
  \<open>json.loads\<close> decodes to \<open>j\<close>; \<open>json.dumps j\<close> writes \<open>JsonText j\<close>.
\<close>

datatype column = SqlNull | BadText string | JsonText json

text \<open>
  A row of the \<open>tasks\<close> table, as \<open>dict(row)\<close> presents it. The identifier, title,
  description and status are text, as the data model has them; the parent reference and
  the assignee may be NULL, and so may the three columns that hold JSON. The column
  \<open>notes\<close> is the field \<open>task_notes\<close>.
\<close>

record task =
  task_id :: string
  title :: string
  description :: string
  assigned_to :: "string option"
  created_by :: string
  status :: string
  priority :: string
  created_at :: string
  updated_at :: string
  parent_task :: "string option"
  child_tasks :: column
  depends_on_tasks :: column
  task_notes :: column

section \<open>Step 2: layer classification\<close>

definition infrastructure_keywords :: "string list" where
  "infrastructure_keywords =
     [''setup'', ''config'', ''install'', ''database'', ''schema'', ''auth'', ''authentication'',
      ''environment'', ''deployment'', ''infrastructure'', ''basic'', ''core setup'']"

definition core_functionality_keywords :: "string list" where
  "core_functionality_keywords =
     [''calculator'', ''algorithm'', ''logic'', ''processing'', ''computation'', ''smart'',
      ''intelligent'', ''analysis'', ''recommendation'', ''search'', ''filter'']"

definition user_interface_keywords :: "string list" where
  "user_interface_keywords =
     [''ui'', ''interface'', ''component'', ''page'', ''form'', ''button'', ''modal'',
      ''styling'', ''design'', ''layout'', ''responsive'', ''user experience'']"

definition integration_keywords :: "string list" where
  "integration_keywords =
     [''integration'', ''api'', ''service'', ''workflow'', ''coordination'', ''communication'',
      ''synchronization'', ''orchestration'', ''pipeline'']"

definition optimization_keywords :: "string list" where
  "optimization_keywords =
     [''optimization'', ''performance'', ''improve'', ''enhance'', ''polish'', ''refine'',
      ''testing'', ''quality'', ''monitoring'', ''analytics'', ''reporting'']"

record complexity_analysis =
  infrastructure_tasks :: "task list"
  core_functionality_tasks :: "task list"
  user_interface_tasks :: "task list"
  integration_tasks :: "task list"
  optimization_tasks :: "task list"
  unclassified_tasks :: "task list"

definition empty_complexity_analysis :: complexity_analysis where
  "empty_complexity_analysis =
     \<lparr>infrastructure_tasks = [], core_functionality_tasks = [], user_interface_tasks = [],
      integration_tasks = [], optimization_tasks = [], unclassified_tasks = []\<rparr>"

text \<open>The text the classifier searches: \<open>f"{title} {description}"\<close> of the lowercased fields.\<close>

definition task_text :: "task \<Rightarrow> string" where
  "task_text t = lower (title t) @ '' '' @ lower (description t)"

text \<open>The body of the loop over the tasks: one \<open>if\<close>/\<open>elif\<close> chain, one append.\<close>

definition classify_task :: "complexity_analysis \<Rightarrow> task \<Rightarrow> complexity_analysis" where
  "classify_task ca t =
     (if any_in infrastructure_keywords (task_text t)
        then ca\<lparr>infrastructure_tasks := infrastructure_tasks ca @ [t]\<rparr>
      else if any_in core_functionality_keywords (task_text t)
        then ca\<lparr>core_functionality_tasks := core_functionality_tasks ca @ [t]\<rparr>
      else if any_in user_interface_keywords (task_text t)
        then ca\<lparr>user_interface_tasks := user_interface_tasks ca @ [t]\<rparr>
      else if any_in integration_keywords (task_text t)
        then ca\<lparr>integration_tasks := integration_tasks ca @ [t]\<rparr>
      else if any_in optimization_keywords (task_text t)
        then ca\<lparr>optimization_tasks := optimization_tasks ca @ [t]\<rparr>
      else ca\<lparr>unclassified_tasks := unclassified_tasks ca @ [t]\<rparr>)"

definition analyze_task_complexity_layers :: "task list \<Rightarrow> complexity_analysis" where
  "analyze_task_complexity_layers tasks = foldl classify_task empty_complexity_analysis tasks"


text \<open>
  The spec's wording of the classifier, for comparison with the loop above: the buckets in
  their fixed priority order, each with its keyword set, and the first bucket with a hit.
\<close>

datatype layer =
  Infrastructure | Core_functionality | User_interface | Integration | Optimization | Unclassified

definition layer_rules :: "(layer \<times> string list) list" where
  "layer_rules =
     [(Infrastructure, infrastructure_keywords),
      (Core_functionality, core_functionality_keywords),
      (User_interface, user_interface_keywords),
      (Integration, integration_keywords),
      (Optimization, optimization_keywords)]"

definition first_match_layer :: "string \<Rightarrow> layer" where
  "first_match_layer text =
     (case find (\<lambda>(l, ks). any_in ks text) layer_rules of
        Some (l, ks) \<Rightarrow> l
      | None \<Rightarrow> Unclassified)"

fun bucket :: "complexity_analysis \<Rightarrow> layer \<Rightarrow> task list" where
  "bucket ca Infrastructure = infrastructure_tasks ca"
| "bucket ca Core_functionality = core_functionality_tasks ca"
| "bucket ca User_interface = user_interface_tasks ca"
| "bucket ca Integration = integration_tasks ca"
| "bucket ca Optimization = optimization_tasks ca"
| "bucket ca Unclassified = unclassified_tasks ca"

section \<open>Python dictionaries\<close>

text \<open>
  A \<open>dict\<close> is an association list in insertion order with one pair per key:
  \<open>d[k] = v\<close> replaces the value of a key that is present, in place, and appends a new key.
\<close>

fun dict_set :: "('k \<times> 'v) list \<Rightarrow> 'k \<Rightarrow> 'v \<Rightarrow> ('k \<times> 'v) list" where
  "dict_set [] k v = [(k, v)]"
| "dict_set ((k', v') # d) k v = (if k' = k then (k, v) # d else (k', v') # dict_set d k v)"

section \<open>Step 3: dependency analysis\<close>

record implicit_dependency =
  dependent :: string
  dependency :: string
  reason :: string

record dependency_analysis =
  explicit_dependencies :: "(string \<times> json) list"
  implicit_dependencies :: "implicit_dependency list"
  missing_dependencies :: "json list"
  dependency_violations :: "json list"
  suggested_fixes :: "json list"

definition dependency_patterns :: "(string \<times> string) list" where
  "dependency_patterns =
     [(''component'', ''api''),
      (''form'', ''service''),
      (''page'', ''database''),
      (''test'', ''implement''),
      (''testing'', ''feature''),
      (''advanced'', ''basic''),
      (''enhancement'', ''core''),
      (''optimization'', ''implementation''),
      (''integration'', ''component''),
      (''workflow'', ''service'')]"

text \<open>The loop returns \<open>True\<close> at the first pattern that fits and \<open>False\<close> after the last.\<close>

definition should_depend_on :: "string \<Rightarrow> string \<Rightarrow> bool" where
  "should_depend_on task_title potential_dependency_title =
     list_ex (\<lambda>(dependent_keyword, dependency_keyword).
                str_in dependent_keyword task_title
                \<and> str_in dependency_keyword potential_dependency_title)
       dependency_patterns"

text \<open>
  What the explicit pass records for one task: a value that is not a \<open>str\<close> (NULL, read
  as \<open>None\<close>) is recorded as it is, a text is decoded, and a text that does not decode
  becomes the empty list.
\<close>

fun explicit_entry :: "column \<Rightarrow> json" where
  "explicit_entry SqlNull = JNull"
| "explicit_entry (BadText s) = JArr []"
| "explicit_entry (JsonText j) = j"

definition dependency_reason :: "string \<Rightarrow> string \<Rightarrow> string" where
  "dependency_reason task_title other_title =
     [CHR 0x27] @ task_title @ [CHR 0x27] @ '' likely depends on ''
       @ [CHR 0x27] @ other_title @ [CHR 0x27]"

text \<open>The inner loop of the implicit pass, for one task against every other task.\<close>

definition implicit_for :: "task list \<Rightarrow> task \<Rightarrow> implicit_dependency list" where
  "implicit_for tasks t =
     concat (map (\<lambda>other_task.
        if task_id t = task_id other_task then []
        else if should_depend_on (lower (title t)) (lower (title other_task))
          then [\<lparr>dependent = task_id t, dependency = task_id other_task,
                 reason = dependency_reason (lower (title t)) (lower (title other_task))\<rparr>]
        else []) tasks)"

definition analyze_task_dependencies :: "task list \<Rightarrow> dependency_analysis" where
  "analyze_task_dependencies tasks =
     \<lparr>explicit_dependencies =
        foldl (\<lambda>d t. dict_set d (task_id t) (explicit_entry (depends_on_tasks t))) [] tasks,
      implicit_dependencies = concat (map (implicit_for tasks) tasks),
      missing_dependencies = [],
      dependency_violations = [],
      suggested_fixes = []\<rparr>"


section \<open>Step 1: project domain\<close>

record domain_analysis =
  primary_domain :: string
  domain_scores :: "(string \<times> nat) list"
  project_complexity :: nat
  has_ui_components :: bool
  has_backend_work :: bool
  has_business_logic :: bool

definition domain_indicators :: "(string \<times> string list) list" where
  "domain_indicators =
     [(''web_development'',
         [''website'', ''page'', ''ui'', ''frontend'', ''component'', ''react'', ''vue'',
          ''angular'', ''html'', ''css'', ''javascript'']),
      (''backend_development'',
         [''api'', ''server'', ''database'', ''auth'', ''authentication'', ''endpoint'',
          ''service'', ''backend'']),
      (''mobile_development'',
         [''mobile'', ''app'', ''ios'', ''android'', ''react native'', ''flutter'', ''swift'',
          ''kotlin'']),
      (''data_science'',
         [''data'', ''analytics'', ''ml'', ''machine learning'', ''model'', ''analysis'',
          ''visualization'']),
      (''devops'',
         [''deployment'', ''ci/cd'', ''docker'', ''kubernetes'', ''infrastructure'',
          ''monitoring'']),
      (''business_application'',
         [''dashboard'', ''crm'', ''quote'', ''customer'', ''business'', ''management'',
          ''workflow''])]"

text \<open>\<open>sep.join(xs)\<close>.\<close>

fun join :: "string \<Rightarrow> string list \<Rightarrow> string" where
  "join sep [] = []"
| "join sep [x] = x"
| "join sep (x # y # ys) = x @ sep @ join sep (y # ys)"

text \<open>
  \<open>max(d, key=d.get)\<close> walks the keys in order and keeps the first one of greatest
  value. The walk starts from the first entry of the score table, which has one entry for
  each of the six domains.
\<close>

fun max_key_from :: "string \<times> nat \<Rightarrow> (string \<times> nat) list \<Rightarrow> string" where
  "max_key_from best [] = fst best"
| "max_key_from best (kv # d) = max_key_from (if snd best < snd kv then kv else best) d"

definition analyze_project_domain :: "task list \<Rightarrow> domain_analysis" where
  "analyze_project_domain tasks =
     (let all_text = map (\<lambda>t. lower (title t @ '' '' @ description t)) tasks;
          combined_text = join '' '' all_text;
          scores = map (\<lambda>(domain, keywords).
                          (domain, length (filter (\<lambda>keyword. str_in keyword combined_text) keywords)))
                       domain_indicators
      in \<lparr>primary_domain = max_key_from (hd scores) (tl scores),
          domain_scores = scores,
          project_complexity = length tasks,
          has_ui_components = list_ex (\<lambda>t. str_in ''component'' (lower (title t))) tasks,
          has_backend_work = any_in [''api'', ''database'', ''server''] combined_text,
          has_business_logic =
            any_in [''quote'', ''calculator'', ''business'', ''workflow''] combined_text\<rparr>)"

section \<open>Step 4: phase structure\<close>

record phase =
  phase_id :: string
  name :: string
  phase_tasks :: "task list"
  justification :: string

record phase_structure =
  recommended_phases :: "phase list"
  phase_assignments :: "(string \<times> string) list"
  reasoning :: "string list"

text \<open>The decimal digits of a number, as an f-string prints a \<open>len(...)\<close>.\<close>

function str_of_nat :: "nat \<Rightarrow> string" where
  "str_of_nat n =
     (if n < 10 then [''0123456789'' ! n]
      else str_of_nat (n div 10) @ [''0123456789'' ! (n mod 10)])"
  by pat_completeness auto
termination
  by (relation "measure id") auto

declare str_of_nat.simps [simp del]

text \<open>\<open>for task in ts: phase_assignments[task['task_id']] = p\<close>.\<close>

definition assign_all :: "(string \<times> string) list \<Rightarrow> task list \<Rightarrow> string \<Rightarrow> (string \<times> string) list" where
  "assign_all d ts p = foldl (\<lambda>d t. dict_set d (task_id t) p) d ts"

text \<open>
  The loop over the unclassified tasks; its state is the pair of the two lists it
  appends to, \<open>foundation_tasks\<close> and \<open>coordination_tasks\<close>.
\<close>

definition assign_unclassified :: "task list \<times> task list \<Rightarrow> task \<Rightarrow> task list \<times> task list" where
  "assign_unclassified both t =
     (case both of (foundation_tasks, coordination_tasks) \<Rightarrow>
        if status t = ''completed'' then (foundation_tasks @ [t], coordination_tasks)
        else if any_in [''page'', ''ui'', ''interface'', ''component''] (lower (title t))
          then (foundation_tasks, coordination_tasks @ [t])
        else (foundation_tasks @ [t], coordination_tasks))"

definition foundation_step :: "task list \<Rightarrow> phase_structure \<Rightarrow> phase_structure" where
  "foundation_step foundation_tasks ps =
     (if foundation_tasks \<noteq> [] then
        ps\<lparr>recommended_phases := recommended_phases ps @
              [\<lparr>phase_id = ''phase_1_foundation'',
                name = ''Phase 1: Foundation'',
                phase_tasks = foundation_tasks,
                justification = ''Core infrastructure and setup tasks (''
                  @ str_of_nat (length foundation_tasks) @ '' tasks)''\<rparr>],
           phase_assignments :=
              assign_all (phase_assignments ps) foundation_tasks ''phase_1_foundation''\<rparr>
      else ps)"

text \<open>
  In the \<open>else\<close> branch \<open>foundation_tasks.extend(intelligence_tasks)\<close> grows the list
  object that the Foundation entry, when there is one, holds as its \<open>tasks\<close> (the field \<open>phase_tasks\<close>): the entry
  sees the added tasks, its justification keeps the earlier count.
\<close>

definition intelligence_step :: "task list \<Rightarrow> phase_structure \<Rightarrow> phase_structure" where
  "intelligence_step intelligence_tasks ps =
     (if intelligence_tasks \<noteq> [] \<and> length intelligence_tasks \<ge> 3 then
        ps\<lparr>recommended_phases := recommended_phases ps @
              [\<lparr>phase_id = ''phase_2_intelligence'',
                name = ''Phase 2: Intelligence'',
                phase_tasks = intelligence_tasks,
                justification = ''Core business logic and intelligent features (''
                  @ str_of_nat (length intelligence_tasks) @ '' tasks)''\<rparr>],
           phase_assignments :=
              assign_all (phase_assignments ps) intelligence_tasks ''phase_2_intelligence''\<rparr>
      else
        ps\<lparr>recommended_phases :=
              map (\<lambda>p. if phase_id p = ''phase_1_foundation''
                        then p\<lparr>phase_tasks := phase_tasks p @ intelligence_tasks\<rparr> else p)
                  (recommended_phases ps),
           phase_assignments :=
              assign_all (phase_assignments ps) intelligence_tasks ''phase_1_foundation''\<rparr>)"

definition coordination_step :: "task list \<Rightarrow> task list \<Rightarrow> phase_structure \<Rightarrow> phase_structure" where
  "coordination_step intelligence_tasks coordination_tasks ps =
     (if coordination_tasks \<noteq> [] \<and> length coordination_tasks \<ge> 5 then
        ps\<lparr>recommended_phases := recommended_phases ps @
              [\<lparr>phase_id = ''phase_3_coordination'',
                name = ''Phase 3: Coordination'',
                phase_tasks = coordination_tasks,
                justification = ''User interface and system integration (''
                  @ str_of_nat (length coordination_tasks) @ '' tasks)''\<rparr>],
           phase_assignments :=
              assign_all (phase_assignments ps) coordination_tasks ''phase_3_coordination''\<rparr>
      else
        (let target_phase =
               (if intelligence_tasks \<noteq> [] then ''phase_2_intelligence''
                else ''phase_1_foundation'')
         in ps\<lparr>phase_assignments :=
                 assign_all (phase_assignments ps) coordination_tasks target_phase\<rparr>))"

definition optimization_step :: "task list \<Rightarrow> phase_structure \<Rightarrow> phase_structure" where
  "optimization_step opt_tasks ps =
     (if opt_tasks \<noteq> [] \<and> length opt_tasks \<ge> 2 then
        ps\<lparr>recommended_phases := recommended_phases ps @
              [\<lparr>phase_id = ''phase_4_optimization'',
                name = ''Phase 4: Optimization'',
                phase_tasks = opt_tasks,
                justification = ''Performance, testing, and production readiness (''
                  @ str_of_nat (length opt_tasks) @ '' tasks)''\<rparr>],
           phase_assignments :=
              assign_all (phase_assignments ps) opt_tasks ''phase_4_optimization''\<rparr>
      else
        (let available_phases = map phase_id (recommended_phases ps);
             target_phase =
               (if available_phases \<noteq> [] then last available_phases
                else ''phase_1_foundation'')
         in ps\<lparr>phase_assignments :=
                 assign_all (phase_assignments ps) opt_tasks target_phase\<rparr>))"

definition determine_optimal_phases ::
  "domain_analysis \<Rightarrow> complexity_analysis \<Rightarrow> phase_structure" where
  "determine_optimal_phases da ca =
     (let intelligence_tasks = core_functionality_tasks ca;
          both = foldl assign_unclassified
                    (infrastructure_tasks ca, user_interface_tasks ca @ integration_tasks ca)
                    (unclassified_tasks ca);
          foundation_tasks = fst both;
          coordination_tasks = snd both;
          ps = \<lparr>recommended_phases = [], phase_assignments = [], reasoning = []\<rparr>;
          ps = foundation_step foundation_tasks ps;
          ps = intelligence_step intelligence_tasks ps;
          ps = coordination_step intelligence_tasks coordination_tasks ps;
          ps = optimization_step (optimization_tasks ca) ps
      in ps\<lparr>reasoning :=
              [''Project domain: '' @ primary_domain da,
               ''Total tasks: '' @ str_of_nat (project_complexity da),
               ''Recommended phases: '' @ str_of_nat (length (recommended_phases ps)),
               ''Phase distribution ensures logical progression and proper task grouping'']\<rparr>)"


section \<open>The task store\<close>

text \<open>
  Modelled from the spec: the task store, which the source reaches through SQL on a
  connection and which is not part of the source file. As in the spec's store interface it
  is a keyed table of task rows with read-all in creation order, read-by-key, insert and
  update, beside a key-value table of context records. The \<open>tasks\<close> table is the list
  of its rows in the order \<open>SELECT * FROM tasks ORDER BY created_at\<close> yields them; a row
  inserted with the current time goes last. \<open>project_context\<close> maps a context key to
  its row.
\<close>

record context_row =
  context_value :: json
  last_updated :: string
  updated_by :: string
  context_description :: string

record store =
  tasks_table :: "task list"
  project_context :: "(string \<times> context_row) list"

text \<open>\<open>SELECT ... FROM tasks WHERE task_id = ?\<close> and \<open>fetchone()\<close>.\<close>

definition select_task :: "store \<Rightarrow> string \<Rightarrow> task option" where
  "select_task s tid = find (\<lambda>row. task_id row = tid) (tasks_table s)"

text \<open>\<open>UPDATE tasks SET ... WHERE task_id = ?\<close>, the assignments given as a function on rows.\<close>

definition update_task :: "store \<Rightarrow> string \<Rightarrow> (task \<Rightarrow> task) \<Rightarrow> store" where
  "update_task s tid f =
     s\<lparr>tasks_table := map (\<lambda>row. if task_id row = tid then f row else row) (tasks_table s)\<rparr>"

definition insert_task :: "store \<Rightarrow> task \<Rightarrow> store" where
  "insert_task s row = s\<lparr>tasks_table := tasks_table s @ [row]\<rparr>"

text \<open>
  \<open>task_id LIKE 'phase_%'\<close>: the letters of \<open>phase\<close> in either case, then one character
  for \<open>_\<close>, then anything.
\<close>

definition like_phase :: "string \<Rightarrow> bool" where
  "like_phase tid = (lower (take 5 tid) = ''phase'' \<and> length tid \<ge> 6)"

text \<open>
  Modelled from the spec: store failures, which come from \<open>get_db_connection\<close> and the
  calls on its connection, both outside the source file. Each step of the manager works on
  a connection of its own and commits at its end, so a store call that raises inside a
  step leaves the store as the step found it. A run is given the set of steps in which
  some store call raises; \<open>Migrate_task tid\<close> is a failure inside the reparenting of
  task \<open>tid\<close>, which has a handler of its own.
\<close>

datatype step =
    Needs_migration
  | Load_all_tasks
  | Execute_migration
  | Migrate_task string
  | Fix_dependencies
  | Update_migration_status

datatype error = StoreError | TypeError | JSONDecodeError | AttributeError

definition get_db_connection :: "step set \<Rightarrow> step \<Rightarrow> error + unit" where
  "get_db_connection failing st = (if st \<in> failing then Inl StoreError else Inr ())"

section \<open>The migration manager\<close>

definition needs_migration :: "step set \<Rightarrow> store \<Rightarrow> bool" where
  "needs_migration failing s =
     (case get_db_connection failing Needs_migration of
        Inl e \<Rightarrow> False
      | Inr _ \<Rightarrow>
          (let phase_count = length (filter (\<lambda>row. like_phase (task_id row)) (tasks_table s));
               total_tasks = length (tasks_table s)
           in phase_count = 0 \<and> total_tasks > 0))"

definition load_all_tasks :: "step set \<Rightarrow> store \<Rightarrow> task list" where
  "load_all_tasks failing s =
     (case get_db_connection failing Load_all_tasks of
        Inl e \<Rightarrow> []
      | Inr _ \<Rightarrow> tasks_table s)"

text \<open>The brain emoji that opens every note of the migration, as its UTF-8 bytes.\<close>

definition brain :: string where
  "brain = [CHR 0xF0, CHR 0x9F, CHR 0xA7, CHR 0xA0]"

definition phase_definitions :: "(string \<times> string) list" where
  "phase_definitions =
     [(''phase_1_foundation'',
         ''Core system architecture, database, authentication, and basic APIs''),
      (''phase_2_intelligence'',
         ''RAG system, embeddings, context management, and AI integration''),
      (''phase_3_coordination'',
         ''Multi-agent workflows, task orchestration, and system integration''),
      (''phase_4_optimization'',
         ''Performance tuning, scaling, monitoring, and production readiness'')]"

definition make_note :: "string \<Rightarrow> string \<Rightarrow> json" where
  "make_note timestamp content =
     JObj [(''timestamp'', JStr timestamp),
           (''author'', JStr ''intelligent_migration''),
           (''content'', JStr content)]"

definition create_phase :: "string \<Rightarrow> store \<Rightarrow> phase \<Rightarrow> store" where
  "create_phase now s phase_info =
     (case select_task s (phase_id phase_info) of
        Some row \<Rightarrow> s
      | None \<Rightarrow>
          insert_task s
            \<lparr>task_id = phase_id phase_info,
             title = name phase_info,
             description =
               (case map_of phase_definitions (phase_id phase_info) of
                  Some d \<Rightarrow> d
                | None \<Rightarrow> ''Intelligent phase assignment'')
               @ [CHR 0x0A, CHR 0x0A] @ brain @ '' AI Analysis: '' @ justification phase_info,
             assigned_to = None,
             created_by = ''intelligent_migration'',
             status = ''pending'',
             priority = ''high'',
             created_at = now,
             updated_at = now,
             parent_task = None,
             child_tasks = JsonText (JArr []),
             depends_on_tasks = JsonText (JArr []),
             task_notes = JsonText (JArr
               [make_note now (brain
                  @ '' Intelligent migration: Phase created through AI analysis. ''
                  @ justification phase_info @ ''. ''
                  @ str_of_nat (length (phase_tasks phase_info))
                  @ '' tasks assigned based on content analysis and dependency reasoning.'')])\<rparr>)"

text \<open>\<open>json.loads\<close> of a value read from a column.\<close>

fun json_loads :: "column \<Rightarrow> error + json" where
  "json_loads SqlNull = Inl TypeError"
| "json_loads (BadText s) = Inl JSONDecodeError"
| "json_loads (JsonText j) = Inr j"

text \<open>\<open>xs.append(x)\<close> on a decoded value: only a list has the method.\<close>

fun json_append :: "json \<Rightarrow> json \<Rightarrow> error + json" where
  "json_append (JArr xs) x = Inr (JArr (xs @ [x]))"
| "json_append j x = Inl AttributeError"

text \<open>The strategy part of the reparenting: the new parent and the migration type.\<close>

definition migration_strategy ::
  "phase_structure \<Rightarrow> string \<Rightarrow> string option \<Rightarrow> string \<times> string" where
  "migration_strategy ps pid current_parent =
     (case current_parent of
        None \<Rightarrow> (pid, ''root_to_phase'')
      | Some parent \<Rightarrow>
          (let parent_phase = map_of (phase_assignments ps) parent
           in if parent_phase = Some pid then (parent, ''hierarchy_preserved'')
              else (pid, ''orphan_to_phase'')))"

definition migration_note :: "string \<Rightarrow> phase_structure \<Rightarrow> string \<Rightarrow> string \<Rightarrow> json" where
  "migration_note now ps pid migration_type =
     (let phase_info = find (\<lambda>p. phase_id p = pid) (recommended_phases ps);
          justification =
            (case phase_info of Some p \<Rightarrow> justification p | None \<Rightarrow> ''Intelligent analysis'')
      in make_note now (brain @ '' Intelligent migration: Assigned to '' @ pid
           @ '' based on AI analysis. '' @ justification
           @ ''. Migration type: '' @ migration_type @ ''.''))"

text \<open>
  The body of \<open>_migrate_task_to_phase\<close> inside its \<open>try\<close>: \<open>Inl\<close> is an exception on
  its way to the handler, \<open>Inr\<close> the store and the returned flag.
\<close>

definition migrate_task_body ::
  "step set \<Rightarrow> string \<Rightarrow> store \<Rightarrow> string \<Rightarrow> string \<Rightarrow> phase_structure \<Rightarrow> error + store \<times> bool" where
  "migrate_task_body failing now s tid pid ps =
     (if Migrate_task tid \<in> failing then Inl StoreError
      else case select_task s tid of
        None \<Rightarrow> Inr (s, False)
      | Some t \<Rightarrow>
          (case migration_strategy ps pid (parent_task t) of (new_parent, migration_type) \<Rightarrow>
             (case json_loads (task_notes t) of
                Inl e \<Rightarrow> Inl e
              | Inr current_notes \<Rightarrow>
                  (case json_append current_notes (migration_note now ps pid migration_type) of
                     Inl e \<Rightarrow> Inl e
                   | Inr current_notes \<Rightarrow>
                       Inr (update_task s tid
                              (\<lambda>row. row\<lparr>parent_task := Some new_parent,
                                         updated_at := now,
                                         task_notes := JsonText current_notes\<rparr>),
                            True)))))"

definition migrate_task_to_phase ::
  "step set \<Rightarrow> string \<Rightarrow> store \<Rightarrow> string \<Rightarrow> string \<Rightarrow> phase_structure \<Rightarrow> store \<times> bool" where
  "migrate_task_to_phase failing now s tid pid ps =
     (case migrate_task_body failing now s tid pid ps of
        Inl e \<Rightarrow> (s, False)
      | Inr r \<Rightarrow> r)"

text \<open>
  The loop over \<open>phase_assignments.items()\<close>; its state is the store and
  \<open>migrated_count\<close>.
\<close>

definition migrate_all ::
  "step set \<Rightarrow> string \<Rightarrow> phase_structure \<Rightarrow> store \<times> nat \<Rightarrow> (string \<times> string) list \<Rightarrow> store \<times> nat" where
  "migrate_all failing now ps =
     foldl (\<lambda>(s, migrated_count) (tid, pid).
              case migrate_task_to_phase failing now s tid pid ps of
                (s', ok) \<Rightarrow> (s', if ok then migrated_count + 1 else migrated_count))"

definition execute_migration ::
  "step set \<Rightarrow> string \<Rightarrow> store \<Rightarrow> phase_structure \<Rightarrow> dependency_analysis \<Rightarrow> store \<times> bool" where
  "execute_migration failing now s ps da =
     (case get_db_connection failing Execute_migration of
        Inl e \<Rightarrow> (s, False)
      | Inr _ \<Rightarrow>
          (let s = foldl (create_phase now) s (recommended_phases ps);
               (s, migrated_count) = migrate_all failing now ps (s, 0) (phase_assignments ps)
           in (s, True)))"


text \<open>\<open>result['depends_on_tasks'] or '[]'\<close>: NULL and the empty text give way to \<open>'[]'\<close>.\<close>

fun or_empty_list :: "column \<Rightarrow> column" where
  "or_empty_list SqlNull = JsonText (JArr [])"
| "or_empty_list (BadText txt) = (if txt = [] then JsonText (JArr []) else BadText txt)"
| "or_empty_list (JsonText j) = JsonText j"

text \<open>
  \<open>dependency_id in current_deps\<close> on a decoded value: membership in a list, a key of an
  object, a substring of a string; any other value is not iterable.
\<close>

fun json_contains :: "json \<Rightarrow> string \<Rightarrow> error + bool" where
  "json_contains (JArr xs) d = Inr (JStr d \<in> set xs)"
| "json_contains (JObj kvs) d = Inr (d \<in> set (map fst kvs))"
| "json_contains (JStr txt) d = Inr (str_in d txt)"
| "json_contains j d = Inl TypeError"

text \<open>One round of the loop of \<open>_fix_dependencies\<close>; the state is the store and \<open>fixed_count\<close>.\<close>

definition fix_dependency ::
  "string \<Rightarrow> store \<times> nat \<Rightarrow> implicit_dependency \<Rightarrow> error + store \<times> nat" where
  "fix_dependency now acc implicit_dep =
     (case acc of (s, fixed_count) \<Rightarrow>
        (case select_task s (dependent implicit_dep) of
           None \<Rightarrow> Inr (s, fixed_count)
         | Some result \<Rightarrow>
             (case json_loads (or_empty_list (depends_on_tasks result)) of
                Inl e \<Rightarrow> Inl e
              | Inr current_deps \<Rightarrow>
                  (case json_contains current_deps (dependency implicit_dep) of
                     Inl e \<Rightarrow> Inl e
                   | Inr True \<Rightarrow> Inr (s, fixed_count)
                   | Inr False \<Rightarrow>
                       (case json_append current_deps (JStr (dependency implicit_dep)) of
                          Inl e \<Rightarrow> Inl e
                        | Inr current_deps \<Rightarrow>
                            Inr (update_task s (dependent implicit_dep)
                                   (\<lambda>row. row\<lparr>depends_on_tasks := JsonText current_deps,
                                              updated_at := now\<rparr>),
                                 fixed_count + 1))))))"

fun fix_all ::
  "string \<Rightarrow> store \<times> nat \<Rightarrow> implicit_dependency list \<Rightarrow> error + store \<times> nat" where
  "fix_all now acc [] = Inr acc"
| "fix_all now acc (implicit_dep # rest) =
     (case fix_dependency now acc implicit_dep of
        Inl e \<Rightarrow> Inl e
      | Inr acc' \<Rightarrow> fix_all now acc' rest)"

definition fix_dependencies ::
  "step set \<Rightarrow> string \<Rightarrow> store \<Rightarrow> dependency_analysis \<Rightarrow> phase_structure \<Rightarrow> store" where
  "fix_dependencies failing now s da ps =
     (case get_db_connection failing Fix_dependencies of
        Inl e \<Rightarrow> s
      | Inr _ \<Rightarrow>
          (case fix_all now (s, 0) (implicit_dependencies da) of
             Inl e \<Rightarrow> s
           | Inr (s', fixed_count) \<Rightarrow> s'))"

definition json_of_domain_analysis :: "domain_analysis \<Rightarrow> json" where
  "json_of_domain_analysis da =
     JObj [(''primary_domain'', JStr (primary_domain da)),
           (''domain_scores'', JObj (map (\<lambda>(d, n). (d, JNum (int n))) (domain_scores da))),
           (''project_complexity'', JNum (int (project_complexity da))),
           (''has_ui_components'', JBool (has_ui_components da)),
           (''has_backend_work'', JBool (has_backend_work da)),
           (''has_business_logic'', JBool (has_business_logic da))]"

definition update_migration_status ::
  "step set \<Rightarrow> string \<Rightarrow> store \<Rightarrow> nat \<Rightarrow> domain_analysis \<Rightarrow> phase_structure \<Rightarrow> store" where
  "update_migration_status failing now s total_tasks da ps =
     (case get_db_connection failing Update_migration_status of
        Inl e \<Rightarrow> s
      | Inr _ \<Rightarrow>
          s\<lparr>project_context :=
              dict_set (project_context s) ''agent_mcp_intelligent_migration''
                \<lparr>context_value =
                   JObj [(''intelligent_migration_completed'', JBool True),
                         (''migration_timestamp'', JStr now),
                         (''total_tasks_analyzed'', JNum (int total_tasks)),
                         (''phases_created'', JNum (int (length (recommended_phases ps)))),
                         (''migration_method'', JStr ''ai_powered_multi_phase_analysis''),
                         (''domain_analysis'', json_of_domain_analysis da),
                         (''phase_structure'',
                            JObj [(''recommended_phases'',
                                     JNum (int (length (recommended_phases ps)))),
                                  (''reasoning'', JArr (map JStr (reasoning ps)))]),
                         (''phase_system_version'', JStr ''2.0'')],
                 last_updated = now,
                 updated_by = ''intelligent_migration'',
                 context_description =
                   ''AI-powered intelligent multi-phase migration with dependency optimization''\<rparr>\<rparr>)"

text \<open>
  The method \<open>run_intelligent_migration\<close> on a store whose rows hold text in title and
  description. \<open>now\<close> is the reading of the clock, taken as one value for the run. On
  such rows the analysis steps raise nothing and the steps that touch the store handle
  their failures themselves, so the body of the \<open>try\<close> always returns and the outer
  handler is not reached. The method on stored rows, which may hold NULL there, with its
  outer handler, is \<open>migration_entry_point\<close> below.
\<close>

definition run_intelligent_migration :: "step set \<Rightarrow> string \<Rightarrow> store \<Rightarrow> store \<times> bool" where
  "run_intelligent_migration failing now s =
     (if \<not> needs_migration failing s then (s, True)
      else
        (let all_tasks = load_all_tasks failing s
         in if all_tasks = [] then (s, True)
            else
              (let domain = analyze_project_domain all_tasks;
                   complexity = analyze_task_complexity_layers all_tasks;
                   dependencies = analyze_task_dependencies all_tasks;
                   ps = determine_optimal_phases domain complexity
               in case execute_migration failing now s ps dependencies of
                    (s, migration_success) \<Rightarrow>
                      if migration_success then
                        (let s = fix_dependencies failing now s dependencies ps;
                             s = update_migration_status failing now s (length all_tasks) domain ps
                         in (s, True))
                      else (s, False))))"

section \<open>The entry point on stored rows\<close>

text \<open>
  A row as the table stores it. The title and the description are TEXT columns that may be
  NULL, which \<open>dict(row)\<close> shows as \<open>None\<close>; the other columns are as in \<open>task\<close>.
\<close>

record row =
  row_task_id :: string
  row_title :: "string option"
  row_description :: "string option"
  row_assigned_to :: "string option"
  row_created_by :: string
  row_status :: string
  row_priority :: string
  row_created_at :: string
  row_updated_at :: string
  row_parent_task :: "string option"
  row_child_tasks :: column
  row_depends_on_tasks :: column
  row_notes :: column

record database =
  task_rows :: "row list"
  context_records :: "(string \<times> context_row) list"

text \<open>
  The analysis chain calls \<open>.lower()\<close> on the title and on the description of every
  loaded row (the loop of step 2 does so for each row in turn), and \<open>None\<close> has no such
  method: on a row with a NULL title or description the chain raises
  \<open>AttributeError\<close>. On rows of text the chain is the analysis defined above, on the rows
  read as \<open>task\<close>s.
\<close>

definition row_dict :: "row \<Rightarrow> error + task" where
  "row_dict r =
     (case row_title r of
        None \<Rightarrow> Inl AttributeError
      | Some ttl \<Rightarrow>
          (case row_description r of
             None \<Rightarrow> Inl AttributeError
           | Some dsc \<Rightarrow>
               Inr \<lparr>task_id = row_task_id r, title = ttl, description = dsc,
                    assigned_to = row_assigned_to r, created_by = row_created_by r,
                    status = row_status r, priority = row_priority r,
                    created_at = row_created_at r, updated_at = row_updated_at r,
                    parent_task = row_parent_task r, child_tasks = row_child_tasks r,
                    depends_on_tasks = row_depends_on_tasks r,
                    task_notes = row_notes r\<rparr>))"

fun row_dicts :: "row list \<Rightarrow> error + task list" where
  "row_dicts [] = Inr []"
| "row_dicts (r # rs) =
     (case row_dict r of
        Inl e \<Rightarrow> Inl e
      | Inr t \<Rightarrow> (case row_dicts rs of Inl e \<Rightarrow> Inl e | Inr ts \<Rightarrow> Inr (t # ts)))"

text \<open>A row of text as the table stores it, and a store of such rows as a database.\<close>

definition task_row :: "task \<Rightarrow> row" where
  "task_row t =
     \<lparr>row_task_id = task_id t, row_title = Some (title t),
      row_description = Some (description t), row_assigned_to = assigned_to t,
      row_created_by = created_by t, row_status = status t, row_priority = priority t,
      row_created_at = created_at t, row_updated_at = updated_at t,
      row_parent_task = parent_task t, row_child_tasks = child_tasks t,
      row_depends_on_tasks = depends_on_tasks t, row_notes = task_notes t\<rparr>"

definition stored :: "store \<Rightarrow> database" where
  "stored s = \<lparr>task_rows = map task_row (tasks_table s), context_records = project_context s\<rparr>"

text \<open>\<open>_needs_migration\<close> and \<open>_load_all_tasks\<close> on the stored rows.\<close>

definition needs_migration_rows :: "step set \<Rightarrow> database \<Rightarrow> bool" where
  "needs_migration_rows failing db =
     (case get_db_connection failing Needs_migration of
        Inl e \<Rightarrow> False
      | Inr _ \<Rightarrow>
          (let phase_count = length (filter (\<lambda>r. like_phase (row_task_id r)) (task_rows db));
               total_tasks = length (task_rows db)
           in phase_count = 0 \<and> total_tasks > 0))"

definition load_all_rows :: "step set \<Rightarrow> database \<Rightarrow> row list" where
  "load_all_rows failing db =
     (case get_db_connection failing Load_all_tasks of
        Inl e \<Rightarrow> []
      | Inr _ \<Rightarrow> task_rows db)"

text \<open>
  The body of the \<open>try\<close> of the method \<open>run_intelligent_migration\<close>, on the database as
  it is stored: \<open>Inl\<close> is an exception on its way to the outer handler. Once the analysis
  has read every row, all rows are text, and the steps that write work on the store of
  those rows.
\<close>

definition migration_try :: "step set \<Rightarrow> string \<Rightarrow> database \<Rightarrow> error + database \<times> bool" where
  "migration_try failing now db =
     (if \<not> needs_migration_rows failing db then Inr (db, True)
      else
        (let all_rows = load_all_rows failing db
         in if all_rows = [] then Inr (db, True)
            else
              (case row_dicts all_rows of
                 Inl e \<Rightarrow> Inl e
               | Inr all_tasks \<Rightarrow>
                   (let s = \<lparr>tasks_table = all_tasks, project_context = context_records db\<rparr>;
                        domain = analyze_project_domain all_tasks;
                        complexity = analyze_task_complexity_layers all_tasks;
                        dependencies = analyze_task_dependencies all_tasks;
                        ps = determine_optimal_phases domain complexity
                    in case execute_migration failing now s ps dependencies of
                         (s, migration_success) \<Rightarrow>
                           if migration_success then
                             (let s = fix_dependencies failing now s dependencies ps;
                                  s = update_migration_status failing now s
                                        (length all_tasks) domain ps
                              in Inr (stored s, True))
                           else Inr (stored s, False)))))"

text \<open>
  The method with its outer handler, \<open>except Exception: return False\<close>: what the caller
  of the entry point gets.
\<close>

definition migration_entry_point :: "step set \<Rightarrow> string \<Rightarrow> database \<Rightarrow> database \<times> bool" where
  "migration_entry_point failing now db =
     (case migration_try failing now db of
        Inl e \<Rightarrow> (db, False)
      | Inr r \<Rightarrow> r)"

section \<open>Notions for stating the properties\<close>

text \<open>
  The lists \<open>foundation_tasks\<close> and \<open>coordination_tasks\<close> of the decision step as
  they stand after the loop over the unclassified tasks, before any phase is decided.
\<close>

definition foundation_list :: "complexity_analysis \<Rightarrow> task list" where
  "foundation_list ca =
     fst (foldl assign_unclassified
            (infrastructure_tasks ca, user_interface_tasks ca @ integration_tasks ca)
            (unclassified_tasks ca))"

definition coordination_list :: "complexity_analysis \<Rightarrow> task list" where
  "coordination_list ca =
     snd (foldl assign_unclassified
            (infrastructure_tasks ca, user_interface_tasks ca @ integration_tasks ca)
            (unclassified_tasks ca))"

text \<open>
  What the reparenting makes of a row whose turn has come: the row with its new parent,
  stamp and notes when the notes decode to a list, the row as it is otherwise.
\<close>

definition migrated_row :: "string \<Rightarrow> phase_structure \<Rightarrow> string \<Rightarrow> task \<Rightarrow> task" where
  "migrated_row now ps pid t =
     (case task_notes t of
        JsonText (JArr ns) \<Rightarrow>
          t\<lparr>parent_task := Some (fst (migration_strategy ps pid (parent_task t))),
            updated_at := now,
            task_notes := JsonText (JArr (ns @
              [migration_note now ps pid (snd (migration_strategy ps pid (parent_task t)))]))\<rparr>
      | _ \<Rightarrow> t)"

section \<open>Example rows\<close>

text \<open>A row with the given identifier, title and status; the other fields are plain.\<close>

definition example_task :: "string \<Rightarrow> string \<Rightarrow> string \<Rightarrow> task" where
  "example_task tid ttl st =
     \<lparr>task_id = tid, title = ttl, description = '''', assigned_to = None,
      created_by = ''admin'', status = st, priority = ''medium'',
      created_at = ''2025-01-01T00:00:00'', updated_at = ''2025-01-01T00:00:00'',
      parent_task = None, child_tasks = JsonText (JArr []),
      depends_on_tasks = JsonText (JArr []), task_notes = JsonText (JArr [])\<rparr>"

text \<open>A row whose dependency field holds a text that is not JSON.\<close>

definition broken_dependencies_task :: task where
  "broken_dependencies_task =
     (example_task ''t1'' ''Setup page'' ''pending'')\<lparr>depends_on_tasks := BadText ''[t9,''\<rparr>"


definition family_plan :: phase_structure where
  "family_plan =
     \<lparr>recommended_phases = [],
      phase_assignments = [(''t1'', ''phase_1_foundation''), (''t2'', ''phase_2_intelligence'')],
      reasoning = []\<rparr>"

text \<open>Layer partitions with two and with three core functionality tasks and nothing else.\<close>

definition two_core :: complexity_analysis where
  "two_core = empty_complexity_analysis
     \<lparr>core_functionality_tasks :=
        [example_task ''c1'' ''Search box'' ''pending'',
         example_task ''c2'' ''Price calculator'' ''pending'']\<rparr>"

definition three_core :: complexity_analysis where
  "three_core = empty_complexity_analysis
     \<lparr>core_functionality_tasks :=
        [example_task ''c1'' ''Search box'' ''pending'',
         example_task ''c2'' ''Price calculator'' ''pending'',
         example_task ''c3'' ''Ranking algorithm'' ''pending'']\<rparr>"

text \<open>Task lists and a store on which the decision step is run.\<close>

definition lone_calculator :: "task list" where
  "lone_calculator = [example_task ''t1'' ''Price calculator'' ''pending'']"

definition setup_calculator_button :: "task list" where
  "setup_calculator_button =
     [example_task ''t0'' ''Setup database'' ''pending'',
      example_task ''t1'' ''Price calculator'' ''pending'',
      example_task ''t2'' ''Submit button'' ''pending'']"

definition lone_calculator_store :: store where
  "lone_calculator_store = \<lparr>tasks_table = lone_calculator, project_context = []\<rparr>"

definition after_first_run :: store where
  "after_first_run =
     fst (run_intelligent_migration {} ''2025-02-01T09:00:00'' lone_calculator_store)"

definition after_second_run :: store where
  "after_second_run =
     fst (run_intelligent_migration {} ''2025-02-01T09:05:00'' after_first_run)"

text \<open>The number of notes a row holds, when its notes decode to a list.\<close>

fun notes_length :: "column \<Rightarrow> nat" where
  "notes_length (JsonText (JArr ns)) = length ns"
| "notes_length c = 0"

text \<open>A store with a row whose notes are NULL and a row whose notes are not JSON.\<close>

definition malformed_notes_store :: store where
  "malformed_notes_store =
     \<lparr>tasks_table =
        [(example_task ''t1'' ''Setup database'' ''pending'')\<lparr>task_notes := SqlNull\<rparr>,
         (example_task ''t2'' ''Database schema'' ''pending'')\<lparr>task_notes := BadText ''[{''\<rparr>,
         example_task ''t3'' ''Submit form'' ''pending''],
      project_context = []\<rparr>"

text \<open>A row whose keywords are in its description, not in its title.\<close>

definition described_task :: task where
  "described_task =
     (example_task ''t1'' ''Landing'' ''pending'')\<lparr>description := ''Setup of the Page''\<rparr>"

text \<open>A row whose dependency field decodes to an object, not to a list.\<close>

definition object_dependencies_task :: task where
  "object_dependencies_task =
     (example_task ''t2'' ''Write docs'' ''pending'')
       \<lparr>depends_on_tasks := JsonText (JObj [(''after'', JStr ''t9'')])\<rparr>"

text \<open>The one-task store as a database, and the same with the description NULL.\<close>

definition lone_calculator_rows :: database where
  "lone_calculator_rows = stored lone_calculator_store"

definition null_description_rows :: database where
  "null_description_rows =
     \<lparr>task_rows =
        [(task_row (example_task ''t1'' ''Price calculator'' ''pending''))
           \<lparr>row_description := None\<rparr>],
      context_records = []\<rparr>"

section \<open>Substrings\<close>

lemma starts_with_iff: "starts_with k s \<longleftrightarrow> (\<exists>q. s = k @ q)"
  by (induction k s rule: starts_with.induct) auto

text \<open>\<open>str_in\<close> is the substring relation.\<close>

lemma str_in_iff: "str_in k s \<longleftrightarrow> (\<exists>p q. s = p @ k @ q)"
proof (induction s)
  case Nil
  then show ?case by simp
next
  case (Cons c cs)
  show ?case
  proof
    assume "str_in k (c # cs)"
    then consider "starts_with k (c # cs)" | "str_in k cs" by auto
    then show "\<exists>p q. c # cs = p @ k @ q"
    proof cases
      case 1
      then obtain q where "c # cs = k @ q" by (auto simp: starts_with_iff)
      then have "c # cs = [] @ k @ q" by simp
      then show ?thesis by blast
    next
      case 2
      then obtain p q where "cs = p @ k @ q" using Cons.IH by blast
      then have "c # cs = (c # p) @ k @ q" by simp
      then show ?thesis by blast
    qed
  next
    assume "\<exists>p q. c # cs = p @ k @ q"
    then obtain p q where pq: "c # cs = p @ k @ q" by blast
    show "str_in k (c # cs)"
    proof (cases p)
      case Nil
      with pq have "starts_with k (c # cs)" by (auto simp: starts_with_iff)
      then show ?thesis by simp
    next
      case (Cons a p')
      with pq have "cs = p' @ k @ q" by simp
      then have "str_in k cs" using Cons.IH by blast
      then show ?thesis by simp
    qed
  qed
qed

lemma any_in_iff: "any_in ks s \<longleftrightarrow> (\<exists>k \<in> set ks. str_in k s)"
  by (simp add: any_in_def list_ex_iff)

lemmas keyword_defs =
  infrastructure_keywords_def core_functionality_keywords_def user_interface_keywords_def
  integration_keywords_def optimization_keywords_def

lemmas text_defs = task_text_def lower_def lower_char_def example_task_def

section \<open>The layer classifier\<close>

lemma foldl_classify_bucket:
  "bucket (foldl classify_task ca ts) L =
     bucket ca L @ filter (\<lambda>t. first_match_layer (task_text t) = L) ts"
proof (induction ts arbitrary: ca)
  case Nil
  then show ?case by simp
next
  case (Cons t ts)
  have step: "bucket (classify_task ca t) L =
      bucket ca L @ (if first_match_layer (task_text t) = L then [t] else [])"
    by (cases L) (simp_all add: classify_task_def first_match_layer_def layer_rules_def)
  show ?case
    by (simp add: Cons.IH step)
qed

text \<open>Each bucket is the input list filtered by the first matching layer, order kept.\<close>

lemma layers_filter:
  "bucket (analyze_task_complexity_layers tasks) L =
     filter (\<lambda>t. first_match_layer (task_text t) = L) tasks"
  using foldl_classify_bucket [of empty_complexity_analysis tasks L]
  by (cases L) (simp_all add: analyze_task_complexity_layers_def empty_complexity_analysis_def)

lemma first_match_infrastructure:
  "any_in infrastructure_keywords txt \<Longrightarrow> first_match_layer txt = Infrastructure"
  by (simp add: first_match_layer_def layer_rules_def)

lemma first_match_unclassified:
  "\<forall>(l, ks) \<in> set layer_rules. \<not> any_in ks txt \<Longrightarrow> first_match_layer txt = Unclassified"
  by (simp add: first_match_layer_def layer_rules_def)

text \<open>
  Claim C7. The text the classifier searches for a task is its lowercased title, a blank
  and its lowercased description. The classifier puts every task into the first bucket, in
  the order infrastructure, core functionality, user interface, integration, optimization,
  whose keyword set has a substring hit in that text, and into unclassified when none has.
  So a task is in bucket \<open>L\<close> exactly when \<open>L\<close> is the first matching layer of its
  text, which makes the six buckets a partition; a task whose text hits an infrastructure
  keyword and a user interface keyword is in the infrastructure bucket and not in the user
  interface one. A hit of a keyword set is an occurrence of one of its keywords as a
  substring.
\<close>

theorem layer_classifier_first_match:
  assumes "t \<in> set tasks"
  shows "(\<forall>L. bucket (analyze_task_complexity_layers tasks) L
              = filter (\<lambda>u. first_match_layer (lower (title u) @ '' '' @ lower (description u)) = L)
                  tasks)
       \<and> (\<forall>L. t \<in> set (bucket (analyze_task_complexity_layers tasks) L)
              \<longleftrightarrow> L = first_match_layer (lower (title t) @ '' '' @ lower (description t)))
       \<and> (any_in infrastructure_keywords (lower (title t) @ '' '' @ lower (description t))
            \<and> any_in user_interface_keywords (lower (title t) @ '' '' @ lower (description t))
          \<longrightarrow> t \<in> set (infrastructure_tasks (analyze_task_complexity_layers tasks))
            \<and> t \<notin> set (user_interface_tasks (analyze_task_complexity_layers tasks)))
       \<and> ((\<forall>(l, ks) \<in> set layer_rules.
              \<not> any_in ks (lower (title t) @ '' '' @ lower (description t)))
          \<longrightarrow> t \<in> set (unclassified_tasks (analyze_task_complexity_layers tasks)))
       \<and> (\<forall>ks body. any_in ks body \<longleftrightarrow> (\<exists>k \<in> set ks. \<exists>p q. body = p @ k @ q))"
proof (intro conjI allI impI)
  fix L
  show "bucket (analyze_task_complexity_layers tasks) L
          = filter (\<lambda>u. first_match_layer (lower (title u) @ '' '' @ lower (description u)) = L)
              tasks"
    using layers_filter [of tasks L] by (simp add: task_text_def)
  show "t \<in> set (bucket (analyze_task_complexity_layers tasks) L)
          \<longleftrightarrow> L = first_match_layer (lower (title t) @ '' '' @ lower (description t))"
    using assms by (auto simp: layers_filter task_text_def)
next
  assume h: "any_in infrastructure_keywords (lower (title t) @ '' '' @ lower (description t))
              \<and> any_in user_interface_keywords (lower (title t) @ '' '' @ lower (description t))"
  then have fm: "first_match_layer (task_text t) = Infrastructure"
    by (simp add: first_match_infrastructure task_text_def)
  show "t \<in> set (infrastructure_tasks (analyze_task_complexity_layers tasks))"
    using assms fm layers_filter [of tasks Infrastructure] by simp
  show "t \<notin> set (user_interface_tasks (analyze_task_complexity_layers tasks))"
    using fm layers_filter [of tasks User_interface] by simp
next
  assume "\<forall>(l, ks) \<in> set layer_rules.
            \<not> any_in ks (lower (title t) @ '' '' @ lower (description t))"
  then have "first_match_layer (task_text t) = Unclassified"
    unfolding task_text_def by (rule first_match_unclassified)
  then show "t \<in> set (unclassified_tasks (analyze_task_complexity_layers tasks))"
    using assms layers_filter [of tasks Unclassified] by simp
next
  fix ks body
  show "any_in ks body \<longleftrightarrow> (\<exists>k \<in> set ks. \<exists>p q. body = p @ k @ q)"
    by (simp add: any_in_iff str_in_iff)
qed

theorem layer_classifier_first_match_witness:
  "described_task \<in> set [described_task, example_task ''t2'' ''Write docs'' ''pending'']
   \<and> lower (title described_task) @ '' '' @ lower (description described_task)
       = ''landing setup of the page''
   \<and> \<not> any_in infrastructure_keywords (lower (title described_task))
   \<and> any_in infrastructure_keywords ''landing setup of the page''
   \<and> any_in user_interface_keywords ''landing setup of the page''
   \<and> described_task
        \<in> set (infrastructure_tasks (analyze_task_complexity_layers
              [described_task, example_task ''t2'' ''Write docs'' ''pending'']))
   \<and> described_task
        \<notin> set (user_interface_tasks (analyze_task_complexity_layers
              [described_task, example_task ''t2'' ''Write docs'' ''pending'']))
   \<and> example_task ''t2'' ''Write docs'' ''pending''
        \<in> set (unclassified_tasks (analyze_task_complexity_layers
              [described_task, example_task ''t2'' ''Write docs'' ''pending'']))"
proof -
  let ?t2 = "example_task ''t2'' ''Write docs'' ''pending''"
  let ?ts = "[described_task, ?t2]"
  have m1: "described_task \<in> set ?ts" by simp
  have m2: "?t2 \<in> set ?ts" by simp
  have tx: "lower (title described_task) @ '' '' @ lower (description described_task)
       = ''landing setup of the page''"
    by (simp add: described_task_def lower_def lower_char_def example_task_def)
  have nt: "\<not> any_in infrastructure_keywords (lower (title described_task))"
    by (simp add: any_in_def keyword_defs described_task_def lower_def lower_char_def
        example_task_def)
  have w1: "any_in infrastructure_keywords ''landing setup of the page''"
    by (simp add: any_in_def keyword_defs)
  have w2: "any_in user_interface_keywords ''landing setup of the page''"
    by (simp add: any_in_def keyword_defs)
  have w3: "\<forall>(l, ks) \<in> set layer_rules.
              \<not> any_in ks (lower (title ?t2) @ '' '' @ lower (description ?t2))"
    by (simp add: any_in_def layer_rules_def keyword_defs lower_def lower_char_def
        example_task_def)
  note r1 = layer_classifier_first_match [OF m1]
  note r2 = layer_classifier_first_match [OF m2]
  have a: "described_task \<in> set (infrastructure_tasks (analyze_task_complexity_layers ?ts))
         \<and> described_task \<notin> set (user_interface_tasks (analyze_task_complexity_layers ?ts))"
    using conjunct1 [OF conjunct2 [OF conjunct2 [OF r1]]] w1 w2 unfolding tx by blast
  have b: "?t2 \<in> set (unclassified_tasks (analyze_task_complexity_layers ?ts))"
    using conjunct1 [OF conjunct2 [OF conjunct2 [OF conjunct2 [OF r2]]]] w3 by blast
  show ?thesis using m1 tx nt w1 w2 a b by (intro conjI) simp_all
qed

section \<open>Dictionaries and explicit dependencies\<close>

lemma map_of_dict_set: "map_of (dict_set d k v) = (map_of d)(k \<mapsto> v)"
  by (induction d) (auto simp: fun_eq_iff)

lemma keys_dict_set: "fst ` set (dict_set d k v) = insert k (fst ` set d)"
  by (induction d k v rule: dict_set.induct) (simp_all add: insert_commute)

lemma distinct_dict_set: "distinct (map fst d) \<Longrightarrow> distinct (map fst (dict_set d k v))"
  by (induction d k v rule: dict_set.induct) (auto simp: keys_dict_set)

lemma same_id_same_task:
  "distinct (map task_id ts) \<Longrightarrow> t \<in> set ts \<Longrightarrow> u \<in> set ts \<Longrightarrow> task_id t = task_id u \<Longrightarrow> t = u"
  by (meson distinct_map inj_on_def)

lemma foldl_dict_set_keys:
  "fst ` set (foldl (\<lambda>d t. dict_set d (task_id t) (f t)) d ts)
     = fst ` set d \<union> task_id ` set ts"
  by (induction ts arbitrary: d) (simp_all add: keys_dict_set)

lemma foldl_dict_set_distinct:
  "distinct (map fst d) \<Longrightarrow> distinct (map fst (foldl (\<lambda>d t. dict_set d (task_id t) (f t)) d ts))"
  by (induction ts arbitrary: d) (auto simp: distinct_dict_set)

lemma foldl_dict_set_lookup:
  "distinct (map task_id ts) \<Longrightarrow> t \<in> set ts \<Longrightarrow>
     map_of (foldl (\<lambda>d t. dict_set d (task_id t) (f t)) d ts) (task_id t) = Some (f t)"
proof (induction ts arbitrary: d rule: rev_induct)
  case Nil
  then show ?case by simp
next
  case (snoc x xs)
  show ?case
  proof (cases "t = x")
    case True
    then show ?thesis by (simp add: map_of_dict_set)
  next
    case False
    with snoc.prems have tin: "t \<in> set xs" and d: "distinct (map task_id xs)" by auto
    have "task_id x \<notin> task_id ` set xs" using snoc.prems(1) by simp
    then have "task_id t \<noteq> task_id x" using tin by (metis imageI)
    then show ?thesis using snoc.IH [OF d tin] by (simp add: map_of_dict_set)
  qed
qed

text \<open>
  Claim C8 as stated: a stored dependency value that is malformed is treated as the empty
  list. A text that decodes, but not to a list of ids, is recorded as the decoded value:
  the step makes no check of the shape.
\<close>

theorem object_dependencies_recorded_as_decoded:
  "object_dependencies_task \<in> set [broken_dependencies_task, object_dependencies_task]
   \<and> depends_on_tasks object_dependencies_task = JsonText (JObj [(''after'', JStr ''t9'')])
   \<and> map_of (explicit_dependencies (analyze_task_dependencies
          [broken_dependencies_task, object_dependencies_task]))
        (task_id object_dependencies_task) = Some (JObj [(''after'', JStr ''t9'')])
   \<and> JObj [(''after'', JStr ''t9'')] \<noteq> JArr []"
  by code_simp

text \<open>
  Claim C8, amended. A task whose stored dependency field is a text that \<open>json.loads\<close>
  rejects has the empty list recorded as its entry of the explicit-dependency map; a text
  that decodes is recorded as the decoded value, whatever its shape. The dependency
  analysis raises on no stored dependency value: it is a total function, every task of
  the list has an entry, and the map has one entry for each task id.
\<close>

theorem explicit_dependency_entries:
  assumes "t \<in> set tasks"
    and "distinct (map task_id tasks)"
  shows "(\<forall>txt. depends_on_tasks t = BadText txt \<longrightarrow>
            json_loads (depends_on_tasks t) = Inl JSONDecodeError
            \<and> map_of (explicit_dependencies (analyze_task_dependencies tasks)) (task_id t)
                = Some (JArr []))
       \<and> (\<forall>j. depends_on_tasks t = JsonText j \<longrightarrow>
            map_of (explicit_dependencies (analyze_task_dependencies tasks)) (task_id t)
              = Some j)
       \<and> (\<exists>v. map_of (explicit_dependencies (analyze_task_dependencies tasks)) (task_id t)
              = Some v)
       \<and> fst ` set (explicit_dependencies (analyze_task_dependencies tasks))
           = task_id ` set tasks
       \<and> distinct (map fst (explicit_dependencies (analyze_task_dependencies tasks)))"
proof -
  have look: "map_of (explicit_dependencies (analyze_task_dependencies tasks)) (task_id t)
           = Some (explicit_entry (depends_on_tasks t))"
    using foldl_dict_set_lookup [OF assms(2) assms(1),
        of "\<lambda>t. explicit_entry (depends_on_tasks t)" "[]"]
    by (simp add: analyze_task_dependencies_def)
  have keys: "fst ` set (explicit_dependencies (analyze_task_dependencies tasks))
           = task_id ` set tasks"
    using foldl_dict_set_keys [of "\<lambda>t. explicit_entry (depends_on_tasks t)" "[]" tasks]
    by (simp add: analyze_task_dependencies_def)
  have dist: "distinct (map fst (explicit_dependencies (analyze_task_dependencies tasks)))"
    using foldl_dict_set_distinct [of "[]" "\<lambda>t. explicit_entry (depends_on_tasks t)" tasks]
    by (simp add: analyze_task_dependencies_def)
  show ?thesis
    unfolding look using keys dist by simp
qed

theorem explicit_dependency_entries_witness:
  "broken_dependencies_task \<in> set [broken_dependencies_task, object_dependencies_task]
   \<and> object_dependencies_task \<in> set [broken_dependencies_task, object_dependencies_task]
   \<and> distinct (map task_id [broken_dependencies_task, object_dependencies_task])
   \<and> depends_on_tasks broken_dependencies_task = BadText ''[t9,''
   \<and> map_of (explicit_dependencies (analyze_task_dependencies
          [broken_dependencies_task, object_dependencies_task]))
        (task_id broken_dependencies_task) = Some (JArr [])
   \<and> map_of (explicit_dependencies (analyze_task_dependencies
          [broken_dependencies_task, object_dependencies_task]))
        (task_id object_dependencies_task) = Some (JObj [(''after'', JStr ''t9'')])"
proof -
  let ?ts = "[broken_dependencies_task, object_dependencies_task]"
  have m1: "broken_dependencies_task \<in> set ?ts" and m2: "object_dependencies_task \<in> set ?ts"
    by simp_all
  have d: "distinct (map task_id ?ts)"
    by (simp add: broken_dependencies_task_def object_dependencies_task_def example_task_def)
  have b: "depends_on_tasks broken_dependencies_task = BadText ''[t9,''"
    by (simp add: broken_dependencies_task_def)
  have o: "depends_on_tasks object_dependencies_task = JsonText (JObj [(''after'', JStr ''t9'')])"
    by (simp add: object_dependencies_task_def)
  have r1: "map_of (explicit_dependencies (analyze_task_dependencies ?ts))
              (task_id broken_dependencies_task) = Some (JArr [])"
    using conjunct1 [OF explicit_dependency_entries [OF m1 d]] b by blast
  have r2: "map_of (explicit_dependencies (analyze_task_dependencies ?ts))
              (task_id object_dependencies_task) = Some (JObj [(''after'', JStr ''t9'')])"
    using conjunct1 [OF conjunct2 [OF explicit_dependency_entries [OF m2 d]]] o by blast
  show ?thesis using m1 m2 d b r1 r2 by (intro conjI)
qed

section \<open>Inferred dependencies\<close>

lemma implicit_dependencies_iff:
  "e \<in> set (implicit_dependencies (analyze_task_dependencies tasks)) \<longleftrightarrow>
     (\<exists>t \<in> set tasks. \<exists>other \<in> set tasks.
        task_id t \<noteq> task_id other
        \<and> should_depend_on (lower (title t)) (lower (title other))
        \<and> e = \<lparr>dependent = task_id t, dependency = task_id other,
                reason = dependency_reason (lower (title t)) (lower (title other))\<rparr>)"
  by (auto simp: analyze_task_dependencies_def implicit_for_def split: if_splits)

lemma should_depend_on_iff:
  "should_depend_on a b \<longleftrightarrow>
     (\<exists>(dependent_keyword, dependency_keyword) \<in> set dependency_patterns.
        str_in dependent_keyword a \<and> str_in dependency_keyword b)"
  by (simp add: should_depend_on_def list_ex_iff)

text \<open>
  Claim C9. For two tasks \<open>A\<close> and \<open>B\<close> of the list with different ids, the analyzer
  records an inferred edge from \<open>A\<close> to \<open>B\<close> exactly when some pair of the pattern
  table has its dependent keyword in the lowercased title of \<open>A\<close> and its dependency
  keyword in the lowercased title of \<open>B\<close>; the edge carries the generated reason, and
  no edge goes from a task to itself. Task ids are the primary key, so they are distinct.
\<close>

theorem inferred_edge_iff_pattern:
  assumes "distinct (map task_id tasks)"
    and "A \<in> set tasks" and "B \<in> set tasks"
    and "task_id A \<noteq> task_id B"
  shows "((\<exists>e \<in> set (implicit_dependencies (analyze_task_dependencies tasks)).
            dependent e = task_id A \<and> dependency e = task_id B)
          \<longleftrightarrow> (\<exists>(dependent_keyword, dependency_keyword) \<in> set dependency_patterns.
                 str_in dependent_keyword (lower (title A))
                 \<and> str_in dependency_keyword (lower (title B))))
       \<and> (\<forall>e \<in> set (implicit_dependencies (analyze_task_dependencies tasks)).
            dependent e = task_id A \<and> dependency e = task_id B
            \<longrightarrow> reason e = dependency_reason (lower (title A)) (lower (title B)))
       \<and> (\<forall>e \<in> set (implicit_dependencies (analyze_task_dependencies tasks)).
            dependent e \<noteq> dependency e)"
proof (intro conjI ballI impI iffI)
  assume "\<exists>e \<in> set (implicit_dependencies (analyze_task_dependencies tasks)).
            dependent e = task_id A \<and> dependency e = task_id B"
  then obtain t other where t: "t \<in> set tasks" and o: "other \<in> set tasks"
    and sd: "should_depend_on (lower (title t)) (lower (title other))"
    and ids: "task_id t = task_id A" "task_id other = task_id B"
    by (auto simp: implicit_dependencies_iff)
  have "t = A" using same_id_same_task [OF assms(1) t assms(2) ids(1)] .
  moreover have "other = B" using same_id_same_task [OF assms(1) o assms(3) ids(2)] .
  ultimately show "\<exists>(dependent_keyword, dependency_keyword) \<in> set dependency_patterns.
                 str_in dependent_keyword (lower (title A))
                 \<and> str_in dependency_keyword (lower (title B))"
    using sd by (simp add: should_depend_on_iff)
next
  assume "\<exists>(dependent_keyword, dependency_keyword) \<in> set dependency_patterns.
                 str_in dependent_keyword (lower (title A))
                 \<and> str_in dependency_keyword (lower (title B))"
  then have "should_depend_on (lower (title A)) (lower (title B))"
    by (simp add: should_depend_on_iff)
  then have "\<lparr>dependent = task_id A, dependency = task_id B,
            reason = dependency_reason (lower (title A)) (lower (title B))\<rparr>
           \<in> set (implicit_dependencies (analyze_task_dependencies tasks))"
    using assms by (auto simp: implicit_dependencies_iff)
  then show "\<exists>e \<in> set (implicit_dependencies (analyze_task_dependencies tasks)).
            dependent e = task_id A \<and> dependency e = task_id B"
    by force
next
  fix e
  assume e: "e \<in> set (implicit_dependencies (analyze_task_dependencies tasks))"
    and "dependent e = task_id A \<and> dependency e = task_id B"
  then obtain t other where t: "t \<in> set tasks" and o: "other \<in> set tasks"
    and ids: "task_id t = task_id A" "task_id other = task_id B"
    and r: "reason e = dependency_reason (lower (title t)) (lower (title other))"
    by (auto simp: implicit_dependencies_iff)
  have "t = A" using same_id_same_task [OF assms(1) t assms(2) ids(1)] .
  moreover have "other = B" using same_id_same_task [OF assms(1) o assms(3) ids(2)] .
  ultimately show "reason e = dependency_reason (lower (title A)) (lower (title B))"
    using r by simp
next
  fix e
  assume "e \<in> set (implicit_dependencies (analyze_task_dependencies tasks))"
  then show "dependent e \<noteq> dependency e"
    by (auto simp: implicit_dependencies_iff)
qed

theorem inferred_edge_iff_pattern_witness:
  "distinct (map task_id [example_task ''t1'' ''Test login'' ''pending'',
                          example_task ''t2'' ''Implement login'' ''pending''])
   \<and> task_id (example_task ''t1'' ''Test login'' ''pending'')
       \<noteq> task_id (example_task ''t2'' ''Implement login'' ''pending'')
   \<and> (\<exists>e \<in> set (implicit_dependencies (analyze_task_dependencies
              [example_task ''t1'' ''Test login'' ''pending'',
               example_task ''t2'' ''Implement login'' ''pending''])).
         dependent e = ''t1'' \<and> dependency e = ''t2'')
   \<and> \<not> (\<exists>e \<in> set (implicit_dependencies (analyze_task_dependencies
              [example_task ''t1'' ''Test login'' ''pending'',
               example_task ''t2'' ''Implement login'' ''pending''])).
         dependent e = ''t2'' \<and> dependency e = ''t1'')"
proof -
  let ?A = "example_task ''t1'' ''Test login'' ''pending''"
  let ?B = "example_task ''t2'' ''Implement login'' ''pending''"
  let ?ts = "[?A, ?B]"
  have d: "distinct (map task_id ?ts)" by (simp add: example_task_def)
  have a: "?A \<in> set ?ts" and b: "?B \<in> set ?ts" by simp_all
  have ne: "task_id ?A \<noteq> task_id ?B" by (simp add: example_task_def)
  have ida: "task_id ?A = ''t1''" and idb: "task_id ?B = ''t2''"
    by (simp_all add: example_task_def)
  have p: "\<exists>(dependent_keyword, dependency_keyword) \<in> set dependency_patterns.
             str_in dependent_keyword (lower (title ?A))
             \<and> str_in dependency_keyword (lower (title ?B))"
    by (simp add: dependency_patterns_def lower_def lower_char_def example_task_def)
  have q: "\<not> (\<exists>(dependent_keyword, dependency_keyword) \<in> set dependency_patterns.
             str_in dependent_keyword (lower (title ?B))
             \<and> str_in dependency_keyword (lower (title ?A)))"
    by (simp add: dependency_patterns_def lower_def lower_char_def example_task_def)
  have e1: "\<exists>e \<in> set (implicit_dependencies (analyze_task_dependencies ?ts)).
         dependent e = ''t1'' \<and> dependency e = ''t2''"
    using conjunct1 [OF inferred_edge_iff_pattern [OF d a b ne]] p
    unfolding ida idb by blast
  have e2: "\<not> (\<exists>e \<in> set (implicit_dependencies (analyze_task_dependencies ?ts)).
         dependent e = ''t2'' \<and> dependency e = ''t1'')"
    using conjunct1 [OF inferred_edge_iff_pattern [OF d b a ne [symmetric]]] q
    unfolding ida idb by blast
  show ?thesis using d ne e1 e2 by blast
qed

section \<open>Reparenting one task\<close>

lemma find_update_row:
  assumes "\<And>row. task_id (f row) = task_id row"
  shows "find (\<lambda>row. task_id row = tid) (map (\<lambda>row. if task_id row = tid then f row else row) rows)
           = map_option f (find (\<lambda>row. task_id row = tid) rows)"
  by (induction rows) (simp_all add: assms)

lemma select_update_task:
  assumes "\<And>row. task_id (f row) = task_id row"
  shows "select_task (update_task s tid f) tid = map_option f (select_task s tid)"
  using find_update_row [of f tid "tasks_table s", OF assms]
  by (simp add: select_task_def update_task_def)

lemma migrate_task_body_cases:
  "migrate_task_body failing now s tid pid ps =
     (if Migrate_task tid \<in> failing then Inl StoreError
      else case select_task s tid of
        None \<Rightarrow> Inr (s, False)
      | Some t \<Rightarrow>
         (case task_notes t of
            SqlNull \<Rightarrow> Inl TypeError
          | BadText txt \<Rightarrow> Inl JSONDecodeError
          | JsonText (JArr ns) \<Rightarrow>
              Inr (update_task s tid
                    (\<lambda>row. row\<lparr>parent_task := Some (fst (migration_strategy ps pid (parent_task t))),
                               updated_at := now,
                               task_notes := JsonText (JArr (ns @
                                 [migration_note now ps pid
                                    (snd (migration_strategy ps pid (parent_task t)))]))\<rparr>),
                   True)
          | JsonText _ \<Rightarrow> Inl AttributeError))"
  by (auto simp: migrate_task_body_def split: option.splits prod.splits column.splits json.splits sum.splits)



section \<open>The phase structure\<close>

lemma map_of_assign_all:
  "map_of (assign_all d ts p) k = (if k \<in> task_id ` set ts then Some p else map_of d k)"
  unfolding assign_all_def
  by (induction ts arbitrary: d) (auto simp: map_of_dict_set)

lemma keys_assign_all: "fst ` set (assign_all d ts p) = fst ` set d \<union> task_id ` set ts"
  unfolding assign_all_def by (rule foldl_dict_set_keys)

lemma distinct_assign_all: "distinct (map fst d) \<Longrightarrow> distinct (map fst (assign_all d ts p))"
  unfolding assign_all_def by (rule foldl_dict_set_distinct)

lemma foldl_assign_unclassified_sets:
  "set (fst (foldl assign_unclassified (f, c) us)) \<union> set (snd (foldl assign_unclassified (f, c) us))
     = set f \<union> set c \<union> set us"
  by (induction us arbitrary: f c) (auto simp: assign_unclassified_def)

lemma foldl_assign_unclassified_snd:
  "set (snd (foldl assign_unclassified (f, c) us)) \<subseteq> set c \<union> set us"
proof (induction us arbitrary: f c)
  case Nil
  then show ?case by simp
next
  case (Cons a us)
  obtain f' c' where st: "assign_unclassified (f, c) a = (f', c')" by force
  then have "set c' \<subseteq> set c \<union> {a}"
    by (auto simp: assign_unclassified_def split: if_splits)
  moreover have "set (snd (foldl assign_unclassified (f', c') us)) \<subseteq> set c' \<union> set us"
    by (rule Cons.IH)
  ultimately show ?case using st by auto
qed

lemma coordination_list_subset:
  "set (coordination_list ca)
     \<subseteq> set (user_interface_tasks ca) \<union> set (integration_tasks ca) \<union> set (unclassified_tasks ca)"
  using foldl_assign_unclassified_snd
    [of "infrastructure_tasks ca" "user_interface_tasks ca @ integration_tasks ca"
        "unclassified_tasks ca"]
  by (auto simp: coordination_list_def)

lemma phase_assignments_determine:
  "\<exists>x y. phase_assignments (determine_optimal_phases da ca) =
     assign_all
       (assign_all
          (assign_all
             (assign_all [] (foundation_list ca) ''phase_1_foundation'')
             (core_functionality_tasks ca)
             (if 3 \<le> length (core_functionality_tasks ca) then ''phase_2_intelligence''
              else ''phase_1_foundation''))
          (coordination_list ca) x)
       (optimization_tasks ca) y"
proof -
  have a0: "assign_all d [] p = d" for d :: "(string \<times> string) list" and p
    by (simp add: assign_all_def)
  show ?thesis
    unfolding determine_optimal_phases_def Let_def foundation_step_def intelligence_step_def
      coordination_step_def optimization_step_def foundation_list_def [symmetric]
      coordination_list_def [symmetric]
    by (cases "foundation_list ca = []") (auto simp: a0)
qed

lemma recommended_intelligence:
  "(\<exists>p \<in> set (recommended_phases (determine_optimal_phases da ca)).
       phase_id p = ''phase_2_intelligence'')
     \<longleftrightarrow> 3 \<le> length (core_functionality_tasks ca)"
  unfolding determine_optimal_phases_def Let_def foundation_step_def intelligence_step_def
    coordination_step_def optimization_step_def
  by auto

lemma recommended_intelligence_tasks:
  "p \<in> set (recommended_phases (determine_optimal_phases da ca)) \<Longrightarrow>
     phase_id p = ''phase_2_intelligence'' \<Longrightarrow> phase_tasks p = core_functionality_tasks ca"
  unfolding determine_optimal_phases_def Let_def foundation_step_def intelligence_step_def
    coordination_step_def optimization_step_def
  by (auto split: if_splits)

lemma core_ids_sep:
  assumes d: "distinct (map task_id
            (infrastructure_tasks ca @ core_functionality_tasks ca @ user_interface_tasks ca
             @ integration_tasks ca @ optimization_tasks ca @ unclassified_tasks ca))"
  shows "task_id ` set (core_functionality_tasks ca)
        \<inter> (task_id ` set (user_interface_tasks ca) \<union> task_id ` set (integration_tasks ca)
           \<union> task_id ` set (optimization_tasks ca) \<union> task_id ` set (unclassified_tasks ca)) = {}"
proof -
  from d have "distinct (map task_id (core_functionality_tasks ca)
      @ map task_id (user_interface_tasks ca @ integration_tasks ca @ optimization_tasks ca
           @ unclassified_tasks ca))"
    by simp
  then have "set (map task_id (core_functionality_tasks ca))
      \<inter> set (map task_id (user_interface_tasks ca @ integration_tasks ca @ optimization_tasks ca
           @ unclassified_tasks ca)) = {}"
    by (rule distinct_append [THEN iffD1, THEN conjunct2, THEN conjunct2])
  then show ?thesis by (simp add: image_Un Un_assoc)
qed

lemma core_ids_apart:
  assumes d: "distinct (map task_id
            (infrastructure_tasks ca @ core_functionality_tasks ca @ user_interface_tasks ca
             @ integration_tasks ca @ optimization_tasks ca @ unclassified_tasks ca))"
    and t: "t \<in> set (core_functionality_tasks ca)"
  shows "task_id t \<notin> task_id ` set (coordination_list ca)"
    and "task_id t \<notin> task_id ` set (optimization_tasks ca)"
proof -
  let ?rest = "task_id ` set (user_interface_tasks ca) \<union> task_id ` set (integration_tasks ca)
           \<union> task_id ` set (optimization_tasks ca) \<union> task_id ` set (unclassified_tasks ca)"
  have tid: "task_id t \<in> task_id ` set (core_functionality_tasks ca)" using t by (rule imageI)
  have sep: "task_id ` set (core_functionality_tasks ca) \<inter> ?rest = {}"
    using d by (rule core_ids_sep)
  have notin: "task_id t \<notin> ?rest" using tid sep by (meson disjoint_iff)
  have "task_id ` set (coordination_list ca)
      \<subseteq> task_id ` (set (user_interface_tasks ca) \<union> set (integration_tasks ca)
        \<union> set (unclassified_tasks ca))"
    by (rule image_mono) (rule coordination_list_subset)
  then have sub: "task_id ` set (coordination_list ca) \<subseteq> ?rest"
    unfolding image_Un by (rule order_trans) (simp add: le_supI1 le_supI2)
  show "task_id t \<notin> task_id ` set (coordination_list ca)"
    using notin sub by (meson subsetD)
  show "task_id t \<notin> task_id ` set (optimization_tasks ca)"
    using notin by simp
qed

lemma core_assignment:
  assumes d: "distinct (map task_id
            (infrastructure_tasks ca @ core_functionality_tasks ca @ user_interface_tasks ca
             @ integration_tasks ca @ optimization_tasks ca @ unclassified_tasks ca))"
    and t: "t \<in> set (core_functionality_tasks ca)"
  shows "map_of (phase_assignments (determine_optimal_phases da ca)) (task_id t)
           = Some (if 3 \<le> length (core_functionality_tasks ca) then ''phase_2_intelligence''
                   else ''phase_1_foundation'')"
proof -
  obtain x y where pa: "phase_assignments (determine_optimal_phases da ca) =
     assign_all
       (assign_all
          (assign_all
             (assign_all [] (foundation_list ca) ''phase_1_foundation'')
             (core_functionality_tasks ca)
             (if 3 \<le> length (core_functionality_tasks ca) then ''phase_2_intelligence''
              else ''phase_1_foundation''))
          (coordination_list ca) x)
       (optimization_tasks ca) y"
    using phase_assignments_determine by blast
  have tid: "task_id t \<in> task_id ` set (core_functionality_tasks ca)" using t by simp
  show ?thesis
    unfolding pa
    using core_ids_apart [OF d t] tid by (simp add: map_of_assign_all)
qed

text \<open>
  Claim C6. In a layer partition (the task ids of the six buckets are distinct) with exactly
  two core functionality tasks, no Intelligence phase is in the recommended list and both
  tasks are assigned to \<open>phase_1_foundation\<close>; with three or more, the list has an
  Intelligence phase whose tasks are the core functionality bucket, and each of them is
  assigned to \<open>phase_2_intelligence\<close>.
\<close>

theorem intelligence_threshold:
  assumes "distinct (map task_id
            (infrastructure_tasks ca @ core_functionality_tasks ca @ user_interface_tasks ca
             @ integration_tasks ca @ optimization_tasks ca @ unclassified_tasks ca))"
  shows "(length (core_functionality_tasks ca) = 2 \<longrightarrow>
            ''phase_2_intelligence''
              \<notin> phase_id ` set (recommended_phases (determine_optimal_phases da ca))
            \<and> (\<forall>t \<in> set (core_functionality_tasks ca).
                 map_of (phase_assignments (determine_optimal_phases da ca)) (task_id t)
                   = Some ''phase_1_foundation''))
       \<and> (3 \<le> length (core_functionality_tasks ca) \<longrightarrow>
            (\<exists>p \<in> set (recommended_phases (determine_optimal_phases da ca)).
                 phase_id p = ''phase_2_intelligence''
                 \<and> phase_tasks p = core_functionality_tasks ca)
            \<and> (\<forall>t \<in> set (core_functionality_tasks ca).
                 map_of (phase_assignments (determine_optimal_phases da ca)) (task_id t)
                   = Some ''phase_2_intelligence''))"
proof (intro conjI impI ballI)
  assume two: "length (core_functionality_tasks ca) = 2"
  show "''phase_2_intelligence''
          \<notin> phase_id ` set (recommended_phases (determine_optimal_phases da ca))"
    using recommended_intelligence [of da ca] two by auto
next
  fix t
  assume "length (core_functionality_tasks ca) = 2" and "t \<in> set (core_functionality_tasks ca)"
  then show "map_of (phase_assignments (determine_optimal_phases da ca)) (task_id t)
               = Some ''phase_1_foundation''"
    using core_assignment [OF assms, of t da] by simp
next
  assume three: "3 \<le> length (core_functionality_tasks ca)"
  then obtain p where "p \<in> set (recommended_phases (determine_optimal_phases da ca))"
    and "phase_id p = ''phase_2_intelligence''"
    using recommended_intelligence [of da ca] by blast
  then show "\<exists>p \<in> set (recommended_phases (determine_optimal_phases da ca)).
               phase_id p = ''phase_2_intelligence''
               \<and> phase_tasks p = core_functionality_tasks ca"
    using recommended_intelligence_tasks by blast
next
  fix t
  assume "3 \<le> length (core_functionality_tasks ca)" and "t \<in> set (core_functionality_tasks ca)"
  then show "map_of (phase_assignments (determine_optimal_phases da ca)) (task_id t)
               = Some ''phase_2_intelligence''"
    using core_assignment [OF assms, of t da] by simp
qed

theorem intelligence_threshold_witness:
  "length (core_functionality_tasks two_core) = 2
   \<and> ''phase_2_intelligence''
        \<notin> phase_id ` set (recommended_phases
              (determine_optimal_phases (analyze_project_domain []) two_core))
   \<and> map_of (phase_assignments (determine_optimal_phases (analyze_project_domain []) two_core))
        ''c2'' = Some ''phase_1_foundation''
   \<and> 3 \<le> length (core_functionality_tasks three_core)
   \<and> ''phase_2_intelligence''
        \<in> phase_id ` set (recommended_phases
              (determine_optimal_phases (analyze_project_domain []) three_core))
   \<and> map_of (phase_assignments (determine_optimal_phases (analyze_project_domain []) three_core))
        ''c3'' = Some ''phase_2_intelligence''"
proof -
  let ?da = "analyze_project_domain []"
  have d2: "distinct (map task_id
            (infrastructure_tasks two_core @ core_functionality_tasks two_core
             @ user_interface_tasks two_core @ integration_tasks two_core
             @ optimization_tasks two_core @ unclassified_tasks two_core))"
    by (simp add: two_core_def empty_complexity_analysis_def example_task_def)
  have d3: "distinct (map task_id
            (infrastructure_tasks three_core @ core_functionality_tasks three_core
             @ user_interface_tasks three_core @ integration_tasks three_core
             @ optimization_tasks three_core @ unclassified_tasks three_core))"
    by (simp add: three_core_def empty_complexity_analysis_def example_task_def)
  have l2: "length (core_functionality_tasks two_core) = 2"
    by (simp add: two_core_def empty_complexity_analysis_def)
  have l3: "3 \<le> length (core_functionality_tasks three_core)"
    by (simp add: three_core_def empty_complexity_analysis_def)
  have m2: "example_task ''c2'' ''Price calculator'' ''pending''
              \<in> set (core_functionality_tasks two_core)"
    by (simp add: two_core_def empty_complexity_analysis_def)
  have m3: "example_task ''c3'' ''Ranking algorithm'' ''pending''
              \<in> set (core_functionality_tasks three_core)"
    by (simp add: three_core_def empty_complexity_analysis_def)
  have i2: "task_id (example_task ''c2'' ''Price calculator'' ''pending'') = ''c2''"
    and i3: "task_id (example_task ''c3'' ''Ranking algorithm'' ''pending'') = ''c3''"
    by (simp_all add: example_task_def)
  note r2 = mp [OF conjunct1 [OF intelligence_threshold [OF d2, of ?da]] l2]
  note r3 = mp [OF conjunct2 [OF intelligence_threshold [OF d3, of ?da]] l3]
  have a2: "map_of (phase_assignments (determine_optimal_phases ?da two_core)) ''c2''
              = Some ''phase_1_foundation''"
    using bspec [OF conjunct2 [OF r2] m2] by (simp add: i2)
  have a3: "map_of (phase_assignments (determine_optimal_phases ?da three_core)) ''c3''
              = Some ''phase_2_intelligence''"
    using bspec [OF conjunct2 [OF r3] m3] by (simp add: i3)
  have e3: "''phase_2_intelligence''
        \<in> phase_id ` set (recommended_phases (determine_optimal_phases ?da three_core))"
  proof -
    from conjunct1 [OF r3] obtain p
      where "p \<in> set (recommended_phases (determine_optimal_phases ?da three_core))"
        and "phase_id p = ''phase_2_intelligence''" by blast
    then show ?thesis by (metis imageI)
  qed
  show ?thesis using l2 l3 conjunct1 [OF r2] a2 a3 e3 by (intro conjI)
qed

section \<open>Fallback targets of the decision step\<close>

text \<open>
  Claim C1 says that every task of a non-empty list gets one entry in the phase-assignment
  mapping and that the phase id of the entry is one of the recommended phases. On the list
  of one task titled ``Price calculator'' the decision step merges the single core
  functionality task into Foundation and assigns it to \<open>phase_1_foundation\<close>, but the
  Foundation phase was decided earlier, on the then empty \<open>foundation_tasks\<close>, and is
  not in the recommended list, which is empty.
\<close>

theorem foundation_assigned_but_not_recommended:
  "lone_calculator \<noteq> []
   \<and> phase_assignments
        (determine_optimal_phases (analyze_project_domain lone_calculator)
           (analyze_task_complexity_layers lone_calculator))
       = [(''t1'', ''phase_1_foundation'')]
   \<and> recommended_phases
        (determine_optimal_phases (analyze_project_domain lone_calculator)
           (analyze_task_complexity_layers lone_calculator))
       = []"
  by code_simp

text \<open>
  Claim C3 says that with fewer than five user interface and integration tasks they are
  assigned to the Intelligence phase when that phase was created, else to Foundation. On a
  setup task, a calculator task and a button task, the Intelligence phase is not created
  (one core functionality task), the recommended list is Foundation alone, and the button
  task is assigned to \<open>phase_2_intelligence\<close>: the fallback tests whether
  \<open>intelligence_tasks\<close> is non-empty, not whether the phase was created.
\<close>

theorem coordination_falls_back_to_absent_intelligence:
  "length (user_interface_tasks (analyze_task_complexity_layers setup_calculator_button)
           @ integration_tasks (analyze_task_complexity_layers setup_calculator_button)) = 1
   \<and> map task_id (user_interface_tasks (analyze_task_complexity_layers setup_calculator_button))
       = [''t2'']
   \<and> map phase_id (recommended_phases
        (determine_optimal_phases (analyze_project_domain setup_calculator_button)
           (analyze_task_complexity_layers setup_calculator_button)))
       = [''phase_1_foundation'']
   \<and> phase_assignments
        (determine_optimal_phases (analyze_project_domain setup_calculator_button)
           (analyze_task_complexity_layers setup_calculator_button))
       = [(''t0'', ''phase_1_foundation''), (''t1'', ''phase_1_foundation''),
          (''t2'', ''phase_2_intelligence'')]"
  by code_simp

section \<open>The entry point\<close>

text \<open>
  Claim C2 says that a second run is a no-op. On a store of one task titled
  ``Price calculator'' the first run reparents the task to \<open>phase_1_foundation\<close> and
  creates no phase row, so the guard of the second run finds no phase record: the second
  run migrates again, appends a second note to the task and stamps it anew. Both runs
  return true.
\<close>

theorem second_run_migrates_again:
  "snd (run_intelligent_migration {} ''2025-02-01T09:00:00'' lone_calculator_store)
   \<and> snd (run_intelligent_migration {} ''2025-02-01T09:05:00'' after_first_run)
   \<and> needs_migration {} after_first_run
   \<and> map task_id (tasks_table after_first_run) = [''t1'']
   \<and> map task_id (tasks_table after_second_run) = [''t1'']
   \<and> map (notes_length \<circ> task_notes) (tasks_table after_first_run) = [1]
   \<and> map (notes_length \<circ> task_notes) (tasks_table after_second_run) = [2]
   \<and> map updated_at (tasks_table after_second_run) = [''2025-02-01T09:05:00'']
   \<and> tasks_table after_second_run \<noteq> tasks_table after_first_run"
  by code_simp

lemma execute_migration_flag:
  "snd (execute_migration failing now s ps da) \<longleftrightarrow> Execute_migration \<notin> failing"
  by (simp add: execute_migration_def get_db_connection_def Let_def split: prod.splits)

lemma execute_migration_failed:
  "Execute_migration \<in> failing \<Longrightarrow> execute_migration failing now s ps da = (s, False)"
  by (simp add: execute_migration_def get_db_connection_def)

lemma run_flag:
  "snd (run_intelligent_migration failing now s) \<longleftrightarrow>
     \<not> (needs_migration failing s \<and> load_all_tasks failing s \<noteq> []
        \<and> Execute_migration \<in> failing)"
proof (cases "needs_migration failing s \<and> load_all_tasks failing s \<noteq> []")
  case False
  then show ?thesis by (auto simp: run_intelligent_migration_def Let_def)
next
  case True
  let ?ts = "load_all_tasks failing s"
  let ?ps = "determine_optimal_phases (analyze_project_domain ?ts)
               (analyze_task_complexity_layers ?ts)"
  let ?e = "execute_migration failing now s ?ps (analyze_task_dependencies ?ts)"
  have "snd (run_intelligent_migration failing now s) = snd ?e"
    using True by (simp add: run_intelligent_migration_def Let_def split: prod.splits)
  then show ?thesis using True by (simp add: execute_migration_flag)
qed

section \<open>The entry point with its outer handler\<close>

lemma row_dict_task_row: "row_dict (task_row t) = Inr t"
  by (simp add: row_dict_def task_row_def)

lemma task_row_row_dict: "row_dict r = Inr t \<Longrightarrow> task_row t = r"
  by (auto simp: row_dict_def task_row_def split: option.splits)

lemma row_dict_Inl:
  "row_dict r = Inl e \<Longrightarrow> row_title r = None \<or> row_description r = None"
  by (auto simp: row_dict_def split: option.splits)

lemma row_dict_Inr:
  "row_dict r = Inr t \<Longrightarrow> row_title r \<noteq> None \<and> row_description r \<noteq> None"
  by (auto simp: row_dict_def split: option.splits)

lemma row_dicts_Inl:
  "row_dicts rs = Inl e \<Longrightarrow> \<exists>r \<in> set rs. row_title r = None \<or> row_description r = None"
proof (induction rs)
  case Nil
  then show ?case by simp
next
  case (Cons r rs)
  show ?case
  proof (cases "row_dict r")
    case (Inl e')
    then show ?thesis using row_dict_Inl [OF Inl] by simp
  next
    case (Inr t)
    with Cons.prems have "row_dicts rs = Inl e" by (simp split: sum.splits)
    then show ?thesis using Cons.IH by simp
  qed
qed

lemma row_dicts_Inr:
  "row_dicts rs = Inr ts \<Longrightarrow> \<forall>r \<in> set rs. row_title r \<noteq> None \<and> row_description r \<noteq> None"
proof (induction rs arbitrary: ts)
  case Nil
  then show ?case by simp
next
  case (Cons r rs)
  from Cons.prems obtain t ts' where t: "row_dict r = Inr t" and ts': "row_dicts rs = Inr ts'"
    by (auto split: sum.splits)
  show ?case using row_dict_Inr [OF t] Cons.IH [OF ts'] by simp
qed

lemma row_dicts_rows: "row_dicts rs = Inr ts \<Longrightarrow> map task_row ts = rs"
proof (induction rs arbitrary: ts)
  case Nil
  then show ?case by simp
next
  case (Cons r rs)
  from Cons.prems obtain t ts' where t: "row_dict r = Inr t" and ts': "row_dicts rs = Inr ts'"
    and ts: "ts = t # ts'"
    by (auto split: sum.splits)
  show ?case using task_row_row_dict [OF t] Cons.IH [OF ts'] ts by simp
qed

lemma stored_text_rows:
  "row_dicts (task_rows db) = Inr ts \<Longrightarrow>
     stored \<lparr>tasks_table = ts, project_context = context_records db\<rparr> = db"
  by (simp add: stored_def row_dicts_rows)

lemma migration_try_skipped:
  "\<not> (needs_migration_rows failing db \<and> load_all_rows failing db \<noteq> []) \<Longrightarrow>
     migration_try failing now db = Inr (db, True)"
  by (auto simp: migration_try_def Let_def)

lemma migration_try_raised:
  "needs_migration_rows failing db \<Longrightarrow> load_all_rows failing db \<noteq> [] \<Longrightarrow>
     row_dicts (load_all_rows failing db) = Inl e \<Longrightarrow>
     migration_try failing now db = Inl e"
  by (simp add: migration_try_def Let_def)

lemma migration_try_text:
  assumes "needs_migration_rows failing db" and "load_all_rows failing db \<noteq> []"
    and "row_dicts (load_all_rows failing db) = Inr ts"
    and "execute_migration failing now
           \<lparr>tasks_table = ts, project_context = context_records db\<rparr>
           (determine_optimal_phases (analyze_project_domain ts)
              (analyze_task_complexity_layers ts))
           (analyze_task_dependencies ts) = (s', ok)"
  shows "migration_try failing now db =
           Inr (if ok then
                  (stored (update_migration_status failing now
                     (fix_dependencies failing now s' (analyze_task_dependencies ts)
                        (determine_optimal_phases (analyze_project_domain ts)
                           (analyze_task_complexity_layers ts)))
                     (length ts) (analyze_project_domain ts)
                     (determine_optimal_phases (analyze_project_domain ts)
                        (analyze_task_complexity_layers ts))), True)
                else (stored s', False))"
  using assms(1,2) by (simp add: migration_try_def Let_def assms(3,4))

lemma run_text:
  assumes "needs_migration failing s" and "load_all_tasks failing s = ts" and "ts \<noteq> []"
    and "execute_migration failing now s
           (determine_optimal_phases (analyze_project_domain ts)
              (analyze_task_complexity_layers ts))
           (analyze_task_dependencies ts) = (s', ok)"
  shows "run_intelligent_migration failing now s =
           (if ok then
              (update_migration_status failing now
                 (fix_dependencies failing now s' (analyze_task_dependencies ts)
                    (determine_optimal_phases (analyze_project_domain ts)
                       (analyze_task_complexity_layers ts)))
                 (length ts) (analyze_project_domain ts)
                 (determine_optimal_phases (analyze_project_domain ts)
                    (analyze_task_complexity_layers ts)), True)
            else (s', False))"
  using assms(1,3) by (simp add: run_intelligent_migration_def Let_def assms(2,4))

text \<open>Whether the body of the \<open>try\<close> raises.\<close>

lemma migration_try_raises:
  "(\<exists>e. migration_try failing now db = Inl e) \<longleftrightarrow>
     needs_migration_rows failing db \<and> load_all_rows failing db \<noteq> []
     \<and> (\<exists>r \<in> set (load_all_rows failing db). row_title r = None \<or> row_description r = None)"
proof (cases "needs_migration_rows failing db \<and> load_all_rows failing db \<noteq> []")
  case False
  then show ?thesis using migration_try_skipped [OF False, of now] by auto
next
  case True
  then have n: "needs_migration_rows failing db" and l: "load_all_rows failing db \<noteq> []"
    by simp_all
  show ?thesis
  proof (cases "row_dicts (load_all_rows failing db)")
    case (Inl e)
    have "migration_try failing now db = Inl e" using n l Inl by (rule migration_try_raised)
    then show ?thesis using True row_dicts_Inl [OF Inl] by blast
  next
    case (Inr ts)
    obtain s' ok where e: "execute_migration failing now
           \<lparr>tasks_table = ts, project_context = context_records db\<rparr>
           (determine_optimal_phases (analyze_project_domain ts)
              (analyze_task_complexity_layers ts))
           (analyze_task_dependencies ts) = (s', ok)"
      by (meson surj_pair)
    have "\<exists>r. migration_try failing now db = Inr r"
      using migration_try_text [OF n l Inr e] by blast
    then have "\<not> (\<exists>e. migration_try failing now db = Inl e)" by auto
    then show ?thesis using row_dicts_Inr [OF Inr] by blast
  qed
qed

text \<open>The flag of the entry point.\<close>

lemma entry_point_flag:
  "snd (migration_entry_point failing now db) \<longleftrightarrow>
     \<not> (needs_migration_rows failing db \<and> load_all_rows failing db \<noteq> []
        \<and> ((\<exists>r \<in> set (load_all_rows failing db). row_title r = None \<or> row_description r = None)
           \<or> Execute_migration \<in> failing))"
proof (cases "needs_migration_rows failing db \<and> load_all_rows failing db \<noteq> []")
  case False
  then show ?thesis
    using migration_try_skipped [OF False, of now] by (simp add: migration_entry_point_def)
next
  case True
  then have n: "needs_migration_rows failing db" and l: "load_all_rows failing db \<noteq> []"
    by simp_all
  show ?thesis
  proof (cases "row_dicts (load_all_rows failing db)")
    case (Inl e)
    have "migration_try failing now db = Inl e" using n l Inl by (rule migration_try_raised)
    then have "\<not> snd (migration_entry_point failing now db)"
      by (simp add: migration_entry_point_def)
    then show ?thesis using True row_dicts_Inl [OF Inl] by blast
  next
    case (Inr ts)
    obtain s' ok where e: "execute_migration failing now
           \<lparr>tasks_table = ts, project_context = context_records db\<rparr>
           (determine_optimal_phases (analyze_project_domain ts)
              (analyze_task_complexity_layers ts))
           (analyze_task_dependencies ts) = (s', ok)"
      by (meson surj_pair)
    have "ok \<longleftrightarrow> Execute_migration \<notin> failing"
      using execute_migration_flag [of failing now
          "\<lparr>tasks_table = ts, project_context = context_records db\<rparr>"
          "determine_optimal_phases (analyze_project_domain ts)
              (analyze_task_complexity_layers ts)" "analyze_task_dependencies ts"]
      unfolding e by simp
    moreover have "snd (migration_entry_point failing now db) = ok"
      unfolding migration_entry_point_def migration_try_text [OF n l Inr e] by simp
    ultimately show ?thesis using True row_dicts_Inr [OF Inr] by blast
  qed
qed

text \<open>
  On a database whose rows are all text the entry point is \<open>run_intelligent_migration\<close>
  on the store of those rows.
\<close>

lemma entry_point_on_text_rows:
  assumes "row_dicts (task_rows db) = Inr ts"
  shows "migration_entry_point failing now db =
           (stored (fst (run_intelligent_migration failing now
                      \<lparr>tasks_table = ts, project_context = context_records db\<rparr>)),
            snd (run_intelligent_migration failing now
                      \<lparr>tasks_table = ts, project_context = context_records db\<rparr>))"
proof -
  let ?s = "\<lparr>tasks_table = ts, project_context = context_records db\<rparr>"
  have rows: "map task_row ts = task_rows db" using assms by (rule row_dicts_rows)
  have st: "stored ?s = db" using assms by (rule stored_text_rows)
  have ids: "map row_task_id (task_rows db) = map task_id ts"
    unfolding rows [symmetric] by (simp add: task_row_def comp_def)
  have len: "length (task_rows db) = length ts"
    unfolding rows [symmetric] by simp
  have fr: "length (filter (\<lambda>r. like_phase (row_task_id r)) (task_rows db))
           = length (filter like_phase (map row_task_id (task_rows db)))"
    by (simp add: filter_map comp_def)
  have ft: "length (filter (\<lambda>t. like_phase (task_id t)) ts)
           = length (filter like_phase (map task_id ts))"
    by (simp add: filter_map comp_def)
  have "length (filter (\<lambda>r. like_phase (row_task_id r)) (task_rows db))
           = length (filter (\<lambda>t. like_phase (task_id t)) ts)"
    unfolding fr ft ids ..
  then have e0: "filter (\<lambda>r. like_phase (row_task_id r)) (task_rows db) = []
           \<longleftrightarrow> filter (\<lambda>t. like_phase (task_id t)) ts = []"
    by (metis length_0_conv)
  have nil: "task_rows db = [] \<longleftrightarrow> ts = []" using len by (metis length_0_conv)
  have need: "needs_migration_rows failing db = needs_migration failing ?s"
    by (simp add: needs_migration_rows_def needs_migration_def Let_def e0 nil
        split: sum.splits)
  have load: "load_all_rows failing db = [] \<longleftrightarrow> load_all_tasks failing ?s = []"
    using nil by (simp add: load_all_rows_def load_all_tasks_def split: sum.splits)
  show ?thesis
  proof (cases "needs_migration failing ?s \<and> load_all_tasks failing ?s \<noteq> []")
    case False
    then have "run_intelligent_migration failing now ?s = (?s, True)"
      by (auto simp: run_intelligent_migration_def Let_def)
    moreover have "\<not> (needs_migration_rows failing db \<and> load_all_rows failing db \<noteq> [])"
      using False need load by simp
    then have "migration_entry_point failing now db = (db, True)"
      using migration_try_skipped [of failing db now] by (simp add: migration_entry_point_def)
    ultimately show ?thesis using st by simp
  next
    case True
    then have n: "needs_migration failing ?s" and nr: "needs_migration_rows failing db"
      using need by simp_all
    from True have l: "load_all_tasks failing ?s = ts" and tn: "ts \<noteq> []"
      by (auto simp: load_all_tasks_def split: sum.splits)
    from True load have lr: "load_all_rows failing db = task_rows db"
      and lrn: "load_all_rows failing db \<noteq> []"
      by (auto simp: load_all_rows_def split: sum.splits)
    have rd: "row_dicts (load_all_rows failing db) = Inr ts" unfolding lr by (rule assms)
    obtain s' ok where e: "execute_migration failing now ?s
           (determine_optimal_phases (analyze_project_domain ts)
              (analyze_task_complexity_layers ts))
           (analyze_task_dependencies ts) = (s', ok)"
      by (meson surj_pair)
    show ?thesis
      unfolding migration_entry_point_def migration_try_text [OF nr lrn rd e]
        run_text [OF n l tn e]
      by simp
  qed
qed

text \<open>
  Claim C4 as stated: a store failure in any step, the needed-check included, makes the
  entry point return false. A failure in the needed-check makes \<open>_needs_migration\<close>
  answer false, and the entry point returns true with the database as it was.
\<close>

theorem failed_needed_check_returns_true:
  "Needs_migration \<in> {Needs_migration}
   \<and> \<not> needs_migration_rows {Needs_migration} lone_calculator_rows
   \<and> migration_entry_point {Needs_migration} ''2025-02-01T09:00:00'' lone_calculator_rows
       = (lone_calculator_rows, True)
   \<and> needs_migration_rows {} lone_calculator_rows"
  by code_simp

text \<open>
  Claim C4, amended. A store failure in the needed-check or in loading the tasks is
  answered by ``nothing to migrate'': the entry point returns true and leaves the database
  alone. A failure while phases are created and tasks reparented makes that step report
  failure, a failure inside one task's reparenting makes that task's step report failure,
  and a failure in dependency fixing or in the audit record leaves the store as the step
  found it. The body of the method raises exactly when the needed-check and the loading
  succeed, there are tasks and no phase record, and some row has a NULL title or
  description; the outer handler then returns false and the database is as it was. The
  entry point returns false exactly when the needed-check and the loading succeed, there
  are tasks and no phase record, and either the body raises in this way or the step that
  creates phases and reparents tasks fails.
\<close>

theorem entry_point_outcomes:
  "(Needs_migration \<in> failing \<longrightarrow>
      \<not> needs_migration_rows failing db
      \<and> migration_entry_point failing now db = (db, True))
   \<and> (Load_all_tasks \<in> failing \<longrightarrow>
      load_all_rows failing db = [] \<and> migration_entry_point failing now db = (db, True))
   \<and> (Execute_migration \<in> failing \<longrightarrow>
      execute_migration failing now s ps da = (s, False))
   \<and> (Migrate_task tid \<in> failing \<longrightarrow>
      migrate_task_to_phase failing now s tid pid ps = (s, False))
   \<and> (Fix_dependencies \<in> failing \<longrightarrow> fix_dependencies failing now s da ps = s)
   \<and> (Update_migration_status \<in> failing \<longrightarrow>
      update_migration_status failing now s n dmn ps = s)
   \<and> ((\<exists>e. migration_try failing now db = Inl e) \<longleftrightarrow>
        Needs_migration \<notin> failing \<and> Load_all_tasks \<notin> failing
        \<and> task_rows db \<noteq> []
        \<and> filter (\<lambda>r. like_phase (row_task_id r)) (task_rows db) = []
        \<and> (\<exists>r \<in> set (task_rows db). row_title r = None \<or> row_description r = None))
   \<and> ((\<exists>e. migration_try failing now db = Inl e) \<longrightarrow>
        migration_entry_point failing now db = (db, False))
   \<and> (\<not> snd (migration_entry_point failing now db) \<longleftrightarrow>
        Needs_migration \<notin> failing \<and> Load_all_tasks \<notin> failing
        \<and> task_rows db \<noteq> []
        \<and> filter (\<lambda>r. like_phase (row_task_id r)) (task_rows db) = []
        \<and> ((\<exists>r \<in> set (task_rows db). row_title r = None \<or> row_description r = None)
           \<or> Execute_migration \<in> failing))"
proof -
  have n: "needs_migration_rows failing db \<longleftrightarrow>
      Needs_migration \<notin> failing \<and> task_rows db \<noteq> []
      \<and> filter (\<lambda>r. like_phase (row_task_id r)) (task_rows db) = []"
    by (auto simp: needs_migration_rows_def get_db_connection_def Let_def)
  have l: "load_all_rows failing db = (if Load_all_tasks \<in> failing then [] else task_rows db)"
    by (simp add: load_all_rows_def get_db_connection_def)
  have c1: "Needs_migration \<in> failing \<longrightarrow>
      \<not> needs_migration_rows failing db
      \<and> migration_entry_point failing now db = (db, True)"
    using migration_try_skipped [of failing db now]
    by (simp add: n migration_entry_point_def)
  have c2: "Load_all_tasks \<in> failing \<longrightarrow>
      load_all_rows failing db = [] \<and> migration_entry_point failing now db = (db, True)"
    using migration_try_skipped [of failing db now]
    by (simp add: l migration_entry_point_def)
  have c3: "Execute_migration \<in> failing \<longrightarrow>
      execute_migration failing now s ps da = (s, False)"
    by (simp add: execute_migration_failed)
  have c4: "Migrate_task tid \<in> failing \<longrightarrow>
      migrate_task_to_phase failing now s tid pid ps = (s, False)"
    by (simp add: migrate_task_to_phase_def migrate_task_body_def)
  have c5: "Fix_dependencies \<in> failing \<longrightarrow> fix_dependencies failing now s da ps = s"
    by (simp add: fix_dependencies_def get_db_connection_def)
  have c6: "Update_migration_status \<in> failing \<longrightarrow>
      update_migration_status failing now s n dmn ps = s"
    by (simp add: update_migration_status_def get_db_connection_def)
  have c7: "(\<exists>e. migration_try failing now db = Inl e) \<longleftrightarrow>
        Needs_migration \<notin> failing \<and> Load_all_tasks \<notin> failing
        \<and> task_rows db \<noteq> []
        \<and> filter (\<lambda>r. like_phase (row_task_id r)) (task_rows db) = []
        \<and> (\<exists>r \<in> set (task_rows db). row_title r = None \<or> row_description r = None)"
    unfolding migration_try_raises n l by auto
  have c8: "(\<exists>e. migration_try failing now db = Inl e) \<longrightarrow>
        migration_entry_point failing now db = (db, False)"
    by (auto simp: migration_entry_point_def)
  have c9: "\<not> snd (migration_entry_point failing now db) \<longleftrightarrow>
        Needs_migration \<notin> failing \<and> Load_all_tasks \<notin> failing
        \<and> task_rows db \<noteq> []
        \<and> filter (\<lambda>r. like_phase (row_task_id r)) (task_rows db) = []
        \<and> ((\<exists>r \<in> set (task_rows db). row_title r = None \<or> row_description r = None)
           \<or> Execute_migration \<in> failing)"
    unfolding entry_point_flag n l by auto
  show ?thesis using c1 c2 c3 c4 c5 c6 c7 c8 c9 by (intro conjI)
qed

theorem entry_point_outcomes_witness:
  "migration_entry_point {Needs_migration} ''2025-02-01T09:00:00'' lone_calculator_rows
     = (lone_calculator_rows, True)
   \<and> migration_entry_point {Load_all_tasks} ''2025-02-01T09:00:00'' lone_calculator_rows
     = (lone_calculator_rows, True)
   \<and> execute_migration {Execute_migration} ''2025-02-01T09:00:00'' lone_calculator_store
        family_plan (analyze_task_dependencies lone_calculator)
     = (lone_calculator_store, False)
   \<and> migrate_task_to_phase {Migrate_task ''t1''} ''2025-02-01T09:00:00'' lone_calculator_store
        ''t1'' ''phase_1_foundation'' family_plan
     = (lone_calculator_store, False)
   \<and> fix_dependencies {Fix_dependencies} ''2025-02-01T09:00:00'' lone_calculator_store
        (analyze_task_dependencies lone_calculator) family_plan
     = lone_calculator_store
   \<and> update_migration_status {Update_migration_status} ''2025-02-01T09:00:00''
        lone_calculator_store 1 (analyze_project_domain lone_calculator) family_plan
     = lone_calculator_store
   \<and> (\<exists>e. migration_try {} ''2025-02-01T09:00:00'' null_description_rows = Inl e)
   \<and> migration_entry_point {} ''2025-02-01T09:00:00'' null_description_rows
     = (null_description_rows, False)
   \<and> \<not> snd (migration_entry_point {Execute_migration} ''2025-02-01T09:00:00''
              lone_calculator_rows)
   \<and> snd (migration_entry_point {Fix_dependencies, Update_migration_status}
              ''2025-02-01T09:00:00'' lone_calculator_rows)
   \<and> snd (migration_entry_point {} ''2025-02-01T09:00:00'' lone_calculator_rows)"
proof -
  let ?db = lone_calculator_rows
  let ?nd = null_description_rows
  let ?s = lone_calculator_store
  let ?now = "''2025-02-01T09:00:00''"
  have t: "task_rows ?db \<noteq> []"
    by (simp add: lone_calculator_rows_def stored_def lone_calculator_store_def
        lone_calculator_def)
  have f: "filter (\<lambda>r. like_phase (row_task_id r)) (task_rows ?db) = []"
    by code_simp
  have nulls: "\<not> (\<exists>r \<in> set (task_rows ?db). row_title r = None \<or> row_description r = None)"
    by (simp add: lone_calculator_rows_def stored_def lone_calculator_store_def
        lone_calculator_def task_row_def)
  have t': "task_rows ?nd \<noteq> []"
    by (simp add: null_description_rows_def)
  have f': "filter (\<lambda>r. like_phase (row_task_id r)) (task_rows ?nd) = []"
    by code_simp
  have nulls': "\<exists>r \<in> set (task_rows ?nd). row_title r = None \<or> row_description r = None"
    by (simp add: null_description_rows_def)
  note o = entry_point_outcomes
  have c1: "migration_entry_point {Needs_migration} ?now ?db = (?db, True)"
    using o [of "{Needs_migration}" ?db ?now, THEN conjunct1] by simp
  have c2: "migration_entry_point {Load_all_tasks} ?now ?db = (?db, True)"
    using o [of "{Load_all_tasks}" ?db ?now, THEN conjunct2, THEN conjunct1] by simp
  have c3: "execute_migration {Execute_migration} ?now ?s family_plan
              (analyze_task_dependencies lone_calculator) = (?s, False)"
    using o [of "{Execute_migration}" _ ?now ?s family_plan
               "analyze_task_dependencies lone_calculator",
             THEN conjunct2, THEN conjunct2, THEN conjunct1] by simp
  have c4: "migrate_task_to_phase {Migrate_task ''t1''} ?now ?s ''t1'' ''phase_1_foundation''
              family_plan = (?s, False)"
    using o [of "{Migrate_task ''t1''}" _ ?now ?s family_plan _ "''t1''" "''phase_1_foundation''",
             THEN conjunct2, THEN conjunct2, THEN conjunct2, THEN conjunct1] by simp
  have c5: "fix_dependencies {Fix_dependencies} ?now ?s
              (analyze_task_dependencies lone_calculator) family_plan = ?s"
    using o [of "{Fix_dependencies}" _ ?now ?s family_plan
               "analyze_task_dependencies lone_calculator",
             THEN conjunct2, THEN conjunct2, THEN conjunct2, THEN conjunct2, THEN conjunct1]
    by simp
  have c6: "update_migration_status {Update_migration_status} ?now ?s 1
              (analyze_project_domain lone_calculator) family_plan = ?s"
    using o [of "{Update_migration_status}" _ ?now ?s family_plan _ _ _ 1
               "analyze_project_domain lone_calculator",
             THEN conjunct2, THEN conjunct2, THEN conjunct2, THEN conjunct2, THEN conjunct2,
             THEN conjunct1]
    by simp
  have c7: "\<exists>e. migration_try {} ?now ?nd = Inl e"
    using o [of "{}" ?nd ?now, THEN conjunct2, THEN conjunct2, THEN conjunct2,
             THEN conjunct2, THEN conjunct2, THEN conjunct2, THEN conjunct1] t' f' nulls'
    by simp
  have c8: "migration_entry_point {} ?now ?nd = (?nd, False)"
    using o [of "{}" ?nd ?now, THEN conjunct2, THEN conjunct2, THEN conjunct2,
             THEN conjunct2, THEN conjunct2, THEN conjunct2, THEN conjunct2, THEN conjunct1] c7
    by blast
  note last = o [THEN conjunct2, THEN conjunct2, THEN conjunct2, THEN conjunct2,
             THEN conjunct2, THEN conjunct2, THEN conjunct2, THEN conjunct2]
  have c9: "\<not> snd (migration_entry_point {Execute_migration} ?now ?db)"
    using last [of "{Execute_migration}" ?now ?db] t f by simp
  have c10: "snd (migration_entry_point {Fix_dependencies, Update_migration_status} ?now ?db)"
    using last [of "{Fix_dependencies, Update_migration_status}" ?now ?db] nulls by simp
  have c11: "snd (migration_entry_point {} ?now ?db)"
    using last [of "{}" ?now ?db] nulls by simp
  show ?thesis using c1 c2 c3 c4 c5 c6 c7 c8 c9 c10 c11 by (intro conjI)
qed

section \<open>The reparenting loop\<close>

lemma find_update_other:
  assumes "\<And>row. task_id (f row) = task_id row" and "tid' \<noteq> tid"
  shows "find (\<lambda>row. task_id row = tid')
           (map (\<lambda>row. if task_id row = tid then f row else row) rows)
         = find (\<lambda>row. task_id row = tid') rows"
  using assms by (induction rows) simp_all

lemma select_update_task_other:
  assumes "\<And>row. task_id (f row) = task_id row" and "tid' \<noteq> tid"
  shows "select_task (update_task s tid f) tid' = select_task s tid'"
  using find_update_other [of f tid' tid "tasks_table s", OF assms]
  by (simp add: select_task_def update_task_def)

lemma select_after_migrate:
  assumes "Migrate_task tid \<notin> failing"
  shows "select_task (fst (migrate_task_to_phase failing now s tid pid ps)) tid' =
           (if tid' = tid then map_option (migrated_row now ps pid) (select_task s tid)
            else select_task s tid')"
proof (cases "select_task s tid")
  case None
  then show ?thesis
    using assms by (simp add: migrate_task_to_phase_def migrate_task_body_cases)
next
  case (Some t)
  show ?thesis
  proof (cases "\<exists>ns. task_notes t = JsonText (JArr ns)")
    case False
    then have "migrate_task_to_phase failing now s tid pid ps = (s, False)"
      using assms Some
      by (auto simp: migrate_task_to_phase_def migrate_task_body_cases
          split: column.splits json.splits)
    moreover have "migrated_row now ps pid t = t"
      using False by (auto simp: migrated_row_def split: column.splits json.splits)
    ultimately show ?thesis using Some by simp
  next
    case True
    then obtain ns where ns: "task_notes t = JsonText (JArr ns)" by blast
    let ?f = "\<lambda>row. row\<lparr>parent_task := Some (fst (migration_strategy ps pid (parent_task t))),
                updated_at := now,
                task_notes := JsonText (JArr (ns @
                  [migration_note now ps pid (snd (migration_strategy ps pid (parent_task t)))]))\<rparr>"
    have r: "migrate_task_to_phase failing now s tid pid ps = (update_task s tid ?f, True)"
      using assms Some ns by (simp add: migrate_task_to_phase_def migrate_task_body_cases)
    have m: "migrated_row now ps pid t = ?f t"
      using ns by (simp add: migrated_row_def)
    show ?thesis
    proof (cases "tid' = tid")
      case True
      then show ?thesis
        unfolding r using select_update_task [of ?f s tid] Some m by simp
    next
      case False
      then show ?thesis
        unfolding r using select_update_task_other [of ?f tid' tid s] by simp
    qed
  qed
qed

lemma migrate_all_Nil: "migrate_all failing now ps acc [] = acc"
  by (simp add: migrate_all_def)

lemma migrate_all_Cons:
  "migrate_all failing now ps (s, n) ((tid, pid) # rest) =
     migrate_all failing now ps
       (fst (migrate_task_to_phase failing now s tid pid ps),
        if snd (migrate_task_to_phase failing now s tid pid ps) then n + 1 else n) rest"
  by (simp add: migrate_all_def split: prod.splits)

lemma select_after_migrate_all:
  assumes "\<forall>tid. Migrate_task tid \<notin> failing" and "distinct (map fst asg)"
  shows "select_task (fst (migrate_all failing now ps (s, n) asg)) tid =
           (case map_of asg tid of
              None \<Rightarrow> select_task s tid
            | Some pid \<Rightarrow> map_option (migrated_row now ps pid) (select_task s tid))"
  using assms(2)
proof (induction asg arbitrary: s n)
  case Nil
  then show ?case by (simp add: migrate_all_Nil)
next
  case (Cons a asg)
  obtain k p where a: "a = (k, p)" by force
  from Cons.prems a have d: "distinct (map fst asg)" and k: "k \<notin> fst ` set asg" by auto
  have nk: "map_of asg k = None" using k by (simp add: map_of_eq_None_iff)
  have nf: "Migrate_task k \<notin> failing" using assms(1) by blast
  let ?s' = "fst (migrate_task_to_phase failing now s k p ps)"
  let ?n' = "if snd (migrate_task_to_phase failing now s k p ps) then n + 1 else n"
  have "select_task (fst (migrate_all failing now ps (s, n) (a # asg))) tid
      = select_task (fst (migrate_all failing now ps (?s', ?n') asg)) tid"
    unfolding a migrate_all_Cons ..
  also have "\<dots> = (case map_of asg tid of
              None \<Rightarrow> select_task ?s' tid
            | Some pid \<Rightarrow> map_option (migrated_row now ps pid) (select_task ?s' tid))"
    by (rule Cons.IH [OF d])
  also have "\<dots> = (case map_of (a # asg) tid of
              None \<Rightarrow> select_task s tid
            | Some pid \<Rightarrow> map_option (migrated_row now ps pid) (select_task s tid))"
  proof (cases "tid = k")
    case True
    then show ?thesis using nk a by (simp add: select_after_migrate [OF nf])
  next
    case False
    then have sel: "select_task ?s' tid = select_task s tid"
      by (simp add: select_after_migrate [OF nf])
    show ?thesis unfolding sel using a False by simp
  qed
  finally show ?case .
qed

lemma find_append_Some:
  "find P xs = Some x \<Longrightarrow> find P (xs @ ys) = Some x"
  by (induction xs) (auto split: if_splits)

lemma select_create_phase:
  "select_task s tid = Some t \<Longrightarrow> select_task (create_phase now s p) tid = Some t"
  by (simp add: create_phase_def insert_task_def select_task_def find_append_Some
      split: option.splits)

lemma select_create_phases:
  "select_task s tid = Some t \<Longrightarrow> select_task (foldl (create_phase now) s phases) tid = Some t"
  by (induction phases arbitrary: s) (simp_all add: select_create_phase)

lemma buckets_cover:
  "set (infrastructure_tasks (analyze_task_complexity_layers ts))
   \<union> set (core_functionality_tasks (analyze_task_complexity_layers ts))
   \<union> set (user_interface_tasks (analyze_task_complexity_layers ts))
   \<union> set (integration_tasks (analyze_task_complexity_layers ts))
   \<union> set (optimization_tasks (analyze_task_complexity_layers ts))
   \<union> set (unclassified_tasks (analyze_task_complexity_layers ts)) = set ts"
proof -
  let ?ca = "analyze_task_complexity_layers ts"
  have b: "set (bucket ?ca L) = {t \<in> set ts. first_match_layer (task_text t) = L}" for L
    by (simp add: layers_filter)
  have "(\<Union>L. set (bucket ?ca L)) = set ts"
    unfolding b by auto
  moreover have "(\<Union>L. set (bucket ?ca L))
      = set (bucket ?ca Infrastructure) \<union> set (bucket ?ca Core_functionality)
        \<union> set (bucket ?ca User_interface) \<union> set (bucket ?ca Integration)
        \<union> set (bucket ?ca Optimization) \<union> set (bucket ?ca Unclassified)"
  proof -
    have u: "(UNIV :: layer set) = {Infrastructure, Core_functionality, User_interface,
        Integration, Optimization, Unclassified}"
      using layer.exhaust by blast
    show ?thesis unfolding u by (simp add: Un_assoc)
  qed
  ultimately show ?thesis by simp
qed

lemma foundation_coordination_sets:
  "set (foundation_list ca) \<union> set (coordination_list ca)
     = set (infrastructure_tasks ca) \<union> set (user_interface_tasks ca)
       \<union> set (integration_tasks ca) \<union> set (unclassified_tasks ca)"
  using foldl_assign_unclassified_sets
    [of "infrastructure_tasks ca" "user_interface_tasks ca @ integration_tasks ca"
        "unclassified_tasks ca"]
  by (simp add: foundation_list_def coordination_list_def Un_assoc)

lemma assigned_tasks:
  "fst ` set (phase_assignments (determine_optimal_phases da ca))
     = task_id ` (set (infrastructure_tasks ca) \<union> set (core_functionality_tasks ca)
        \<union> set (user_interface_tasks ca) \<union> set (integration_tasks ca)
        \<union> set (optimization_tasks ca) \<union> set (unclassified_tasks ca))"
proof -
  obtain x y where pa: "phase_assignments (determine_optimal_phases da ca) =
     assign_all
       (assign_all
          (assign_all
             (assign_all [] (foundation_list ca) ''phase_1_foundation'')
             (core_functionality_tasks ca)
             (if 3 \<le> length (core_functionality_tasks ca) then ''phase_2_intelligence''
              else ''phase_1_foundation''))
          (coordination_list ca) x)
       (optimization_tasks ca) y"
    using phase_assignments_determine by blast
  have "fst ` set (phase_assignments (determine_optimal_phases da ca))
      = task_id ` (set (foundation_list ca) \<union> set (coordination_list ca))
        \<union> task_id ` set (core_functionality_tasks ca)
        \<union> task_id ` set (optimization_tasks ca)"
    unfolding pa keys_assign_all image_Un by auto
  also have "\<dots> = task_id ` (set (infrastructure_tasks ca) \<union> set (core_functionality_tasks ca)
        \<union> set (user_interface_tasks ca) \<union> set (integration_tasks ca)
        \<union> set (optimization_tasks ca) \<union> set (unclassified_tasks ca))"
    unfolding foundation_coordination_sets image_Un by auto
  finally show ?thesis .
qed

lemma assignments_distinct:
  "distinct (map fst (phase_assignments (determine_optimal_phases da ca)))"
proof -
  obtain x y where pa: "phase_assignments (determine_optimal_phases da ca) =
     assign_all
       (assign_all
          (assign_all
             (assign_all [] (foundation_list ca) ''phase_1_foundation'')
             (core_functionality_tasks ca)
             (if 3 \<le> length (core_functionality_tasks ca) then ''phase_2_intelligence''
              else ''phase_1_foundation''))
          (coordination_list ca) x)
       (optimization_tasks ca) y"
    using phase_assignments_determine by blast
  show ?thesis unfolding pa by (intro distinct_assign_all) simp
qed

text \<open>The decision step on the layers of a task list: one entry for each task id.\<close>

lemma assignments_cover_tasks:
  "fst ` set (phase_assignments
       (determine_optimal_phases da (analyze_task_complexity_layers ts))) = task_id ` set ts"
  unfolding assigned_tasks buckets_cover ..

lemma fix_dependency_result:
  assumes "fix_dependency now (s, n) d = Inr (s', n')"
  shows "s' = s \<or> (\<exists>deps. s' = update_task s (dependent d)
                      (\<lambda>row. row\<lparr>depends_on_tasks := JsonText deps, updated_at := now\<rparr>))"
  using assms
  by (auto simp: fix_dependency_def split: option.splits sum.splits bool.splits)

lemma fix_dependency_keeps:
  assumes "fix_dependency now (s, n) d = Inr (s', n')"
  shows "map_option (\<lambda>row. (parent_task row, task_notes row)) (select_task s' tid)
       = map_option (\<lambda>row. (parent_task row, task_notes row)) (select_task s tid)"
proof -
  from fix_dependency_result [OF assms] consider "s' = s"
    | deps where "s' = update_task s (dependent d)
                      (\<lambda>row. row\<lparr>depends_on_tasks := JsonText deps, updated_at := now\<rparr>)"
    by blast
  then show ?thesis
  proof cases
    case 1
    then show ?thesis by simp
  next
    case 2
    let ?f = "\<lambda>row. row\<lparr>depends_on_tasks := JsonText deps, updated_at := now\<rparr>"
    show ?thesis
    proof (cases "tid = dependent d")
      case True
      have "select_task s' tid = map_option ?f (select_task s tid)"
        unfolding 2 True by (rule select_update_task) simp
      then show ?thesis by (simp add: option.map_comp comp_def)
    next
      case False
      have "select_task s' tid = select_task s tid"
        unfolding 2 by (rule select_update_task_other) (simp_all add: False)
      then show ?thesis by simp
    qed
  qed
qed

lemma fix_all_keeps:
  "fix_all now (s, n) ds = Inr (s', n') \<Longrightarrow>
     map_option (\<lambda>row. (parent_task row, task_notes row)) (select_task s' tid)
       = map_option (\<lambda>row. (parent_task row, task_notes row)) (select_task s tid)"
proof (induction ds arbitrary: s n)
  case Nil
  then show ?case by simp
next
  case (Cons d ds)
  from Cons.prems obtain s1 n1 where st: "fix_dependency now (s, n) d = Inr (s1, n1)"
    and rest: "fix_all now (s1, n1) ds = Inr (s', n')"
    by (auto split: sum.splits)
  show ?case
    using Cons.IH [OF rest] fix_dependency_keeps [OF st, of tid] by simp
qed

lemma fix_dependencies_keeps:
  "map_option (\<lambda>row. (parent_task row, task_notes row))
       (select_task (fix_dependencies failing now s da ps) tid)
     = map_option (\<lambda>row. (parent_task row, task_notes row)) (select_task s tid)"
proof (cases "get_db_connection failing Fix_dependencies")
  case (Inl e)
  then show ?thesis by (simp add: fix_dependencies_def)
next
  case (Inr u)
  show ?thesis
  proof (cases "fix_all now (s, 0) (implicit_dependencies da)")
    case (Inl e)
    then show ?thesis using Inr by (simp add: fix_dependencies_def)
  next
    case r: (Inr res)
    obtain s' n' where res: "res = (s', n')" by force
    have "fix_dependencies failing now s da ps = s'"
      using Inr r res by (simp add: fix_dependencies_def)
    then show ?thesis using fix_all_keeps [of now s 0 "implicit_dependencies da" s' n' tid] r res
      by simp
  qed
qed

lemma select_update_migration_status:
  "select_task (update_migration_status failing now s n dmn ps) tid = select_task s tid"
  by (simp add: update_migration_status_def select_task_def split: sum.splits)

lemma select_distinct:
  "distinct (map task_id rows) \<Longrightarrow> t \<in> set rows \<Longrightarrow>
     find (\<lambda>row. task_id row = task_id t) rows = Some t"
proof (induction rows)
  case Nil
  then show ?case by simp
next
  case (Cons r rows)
  show ?case
  proof (cases "t = r")
    case True
    then show ?thesis by simp
  next
    case False
    with Cons.prems have tin: "t \<in> set rows" by simp
    have "task_id r \<notin> task_id ` set rows" using Cons.prems(1) by simp
    then have "task_id r \<noteq> task_id t" using tin by (metis imageI)
    then show ?thesis using Cons.IH Cons.prems(1) tin by simp
  qed
qed

text \<open>
  A complete run without store failures, on a store that needs migration: the flag and,
  for every row, its parent and notes afterwards.
\<close>

lemma run_without_failures:
  assumes need: "needs_migration {} s"
    and d: "distinct (map task_id (tasks_table s))"
    and t: "t \<in> set (tasks_table s)"
  shows "snd (run_intelligent_migration {} now s)"
    and "\<exists>pid. map_of (phase_assignments
            (determine_optimal_phases (analyze_project_domain (tasks_table s))
               (analyze_task_complexity_layers (tasks_table s)))) (task_id t) = Some pid
          \<and> map_option (\<lambda>row. (parent_task row, task_notes row))
               (select_task (fst (run_intelligent_migration {} now s)) (task_id t))
            = Some (parent_task
                      (migrated_row now
                         (determine_optimal_phases (analyze_project_domain (tasks_table s))
                            (analyze_task_complexity_layers (tasks_table s))) pid t),
                    task_notes
                      (migrated_row now
                         (determine_optimal_phases (analyze_project_domain (tasks_table s))
                            (analyze_task_complexity_layers (tasks_table s))) pid t))"
proof -
  let ?ts = "tasks_table s"
  let ?dm = "analyze_project_domain ?ts"
  let ?da = "analyze_task_dependencies ?ts"
  let ?ps = "determine_optimal_phases ?dm (analyze_task_complexity_layers ?ts)"
  let ?s1 = "foldl (create_phase now) s (recommended_phases ?ps)"
  let ?s2 = "fst (migrate_all {} now ?ps (?s1, 0) (phase_assignments ?ps))"
  let ?s3 = "fix_dependencies {} now ?s2 ?da ?ps"
  let ?s4 = "update_migration_status {} now ?s3 (length ?ts) ?dm ?ps"
  have ne: "?ts \<noteq> []" using t by auto
  have load: "load_all_tasks {} s = ?ts"
    by (simp add: load_all_tasks_def get_db_connection_def)
  have ex: "execute_migration {} now s ?ps ?da = (?s2, True)"
    by (simp add: execute_migration_def get_db_connection_def Let_def split: prod.splits)
  have run: "run_intelligent_migration {} now s = (?s4, True)"
    using need ne by (simp add: run_intelligent_migration_def load Let_def ex)
  show "snd (run_intelligent_migration {} now s)" unfolding run by simp
  have "task_id t \<in> fst ` set (phase_assignments ?ps)"
    unfolding assignments_cover_tasks using t by (rule imageI)
  then obtain pid where pid: "map_of (phase_assignments ?ps) (task_id t) = Some pid"
    by (metis domD dom_map_of_conv_image_fst)
  have sel0: "select_task s (task_id t) = Some t"
    unfolding select_task_def using d t by (rule select_distinct)
  have sel1: "select_task ?s1 (task_id t) = Some t"
    using sel0 by (rule select_create_phases)
  have sel2: "select_task ?s2 (task_id t) = Some (migrated_row now ?ps pid t)"
    using select_after_migrate_all [of "{}" "phase_assignments ?ps" now ?ps ?s1 0 "task_id t"]
      assignments_distinct [of ?dm "analyze_task_complexity_layers ?ts"] pid sel1
    by simp
  have "map_option (\<lambda>row. (parent_task row, task_notes row)) (select_task ?s4 (task_id t))
      = map_option (\<lambda>row. (parent_task row, task_notes row)) (select_task ?s2 (task_id t))"
    unfolding select_update_migration_status fix_dependencies_keeps ..
  then have "map_option (\<lambda>row. (parent_task row, task_notes row))
               (select_task (fst (run_intelligent_migration {} now s)) (task_id t))
            = Some (parent_task (migrated_row now ?ps pid t),
                    task_notes (migrated_row now ?ps pid t))"
    unfolding run sel2 by simp
  with pid show "\<exists>pid. map_of (phase_assignments ?ps) (task_id t) = Some pid
          \<and> map_option (\<lambda>row. (parent_task row, task_notes row))
               (select_task (fst (run_intelligent_migration {} now s)) (task_id t))
            = Some (parent_task (migrated_row now ?ps pid t),
                    task_notes (migrated_row now ?ps pid t))"
    by blast
qed

lemma malformed_notes_step:
  assumes "select_task s0 tid = Some t"
    and "task_notes t = SqlNull \<or> task_notes t = BadText txt"
  shows "migrate_task_body {} now s0 tid pid ps
           = Inl (if task_notes t = SqlNull then TypeError else JSONDecodeError)"
    and "migrate_task_to_phase {} now s0 tid pid ps = (s0, False)"
    and "migrate_all {} now ps (s0, n) [(tid, pid)] = (s0, n)"
proof -
  show b: "migrate_task_body {} now s0 tid pid ps
           = Inl (if task_notes t = SqlNull then TypeError else JSONDecodeError)"
    using assms by (auto simp: migrate_task_body_cases)
  then show m: "migrate_task_to_phase {} now s0 tid pid ps = (s0, False)"
    by (simp add: migrate_task_to_phase_def)
  show "migrate_all {} now ps (s0, n) [(tid, pid)] = (s0, n)"
    by (simp add: migrate_all_Cons migrate_all_Nil m)
qed

text \<open>
  Claim C10. Take a store that needs migration, with distinct task ids, and in it a task
  whose notes field is NULL or a text that is not JSON; let no store call fail. Whenever
  that task's turn comes, the body of its reparenting raises, the handler returns the
  failure flag, and the store and \<open>migrated_count\<close> stay as they were. The whole run
  returns true; afterwards the task has the parent and the notes it had before, while
  every task whose notes decode to a list has one note more.
\<close>

theorem malformed_notes_left_unmigrated:
  assumes "needs_migration {} s"
    and "distinct (map task_id (tasks_table s))"
    and "t \<in> set (tasks_table s)"
    and "task_notes t = SqlNull \<or> task_notes t = BadText txt"
  shows "(\<forall>s0 pid ps n. select_task s0 (task_id t) = Some t \<longrightarrow>
            (\<exists>e. migrate_task_body {} now s0 (task_id t) pid ps = Inl e)
            \<and> migrate_task_to_phase {} now s0 (task_id t) pid ps = (s0, False)
            \<and> migrate_all {} now ps (s0, n) [(task_id t, pid)] = (s0, n))
       \<and> snd (run_intelligent_migration {} now s)
       \<and> (\<exists>t'. select_task (fst (run_intelligent_migration {} now s)) (task_id t) = Some t'
              \<and> parent_task t' = parent_task t \<and> task_notes t' = task_notes t)
       \<and> (\<forall>u \<in> set (tasks_table s). \<forall>ns. task_notes u = JsonText (JArr ns) \<longrightarrow>
            (\<exists>u' n. select_task (fst (run_intelligent_migration {} now s)) (task_id u) = Some u'
               \<and> task_notes u' = JsonText (JArr (ns @ [n]))))"
proof (intro conjI allI impI ballI)
  fix s0 pid ps n
  assume sel: "select_task s0 (task_id t) = Some t"
  show "\<exists>e. migrate_task_body {} now s0 (task_id t) pid ps = Inl e"
    using malformed_notes_step(1) [OF sel assms(4)] by blast
  show "migrate_task_to_phase {} now s0 (task_id t) pid ps = (s0, False)"
    using sel assms(4) by (rule malformed_notes_step(2))
  show "migrate_all {} now ps (s0, n) [(task_id t, pid)] = (s0, n)"
    using sel assms(4) by (rule malformed_notes_step(3))
next
  show "snd (run_intelligent_migration {} now s)"
    using assms(1,2,3) by (rule run_without_failures(1))
next
  let ?ps = "determine_optimal_phases (analyze_project_domain (tasks_table s))
               (analyze_task_complexity_layers (tasks_table s))"
  from run_without_failures(2) [OF assms(1,2,3), of now] obtain pid where
    r: "map_option (\<lambda>row. (parent_task row, task_notes row))
               (select_task (fst (run_intelligent_migration {} now s)) (task_id t))
        = Some (parent_task (migrated_row now ?ps pid t), task_notes (migrated_row now ?ps pid t))"
    by blast
  have same: "migrated_row now ?ps pid t = t"
    using assms(4) by (auto simp: migrated_row_def)
  from r obtain t' where "select_task (fst (run_intelligent_migration {} now s)) (task_id t) = Some t'"
    and "parent_task t' = parent_task t" and "task_notes t' = task_notes t"
    unfolding same by auto
  then show "\<exists>t'. select_task (fst (run_intelligent_migration {} now s)) (task_id t) = Some t'
              \<and> parent_task t' = parent_task t \<and> task_notes t' = task_notes t"
    by blast
next
  fix u ns
  assume u: "u \<in> set (tasks_table s)" and ns: "task_notes u = JsonText (JArr ns)"
  let ?ps = "determine_optimal_phases (analyze_project_domain (tasks_table s))
               (analyze_task_complexity_layers (tasks_table s))"
  from run_without_failures(2) [OF assms(1,2) u, of now] obtain pid where
    r: "map_option (\<lambda>row. (parent_task row, task_notes row))
               (select_task (fst (run_intelligent_migration {} now s)) (task_id u))
        = Some (parent_task (migrated_row now ?ps pid u), task_notes (migrated_row now ?ps pid u))"
    by blast
  have n: "task_notes (migrated_row now ?ps pid u)
        = JsonText (JArr (ns @ [migration_note now ?ps pid
                                  (snd (migration_strategy ?ps pid (parent_task u)))]))"
    using ns by (simp add: migrated_row_def)
  from r obtain u' where "select_task (fst (run_intelligent_migration {} now s)) (task_id u) = Some u'"
    and "task_notes u' = task_notes (migrated_row now ?ps pid u)"
    by auto
  then show "\<exists>u' n. select_task (fst (run_intelligent_migration {} now s)) (task_id u) = Some u'
               \<and> task_notes u' = JsonText (JArr (ns @ [n]))"
    unfolding n by blast
qed

theorem malformed_notes_left_unmigrated_witness:
  "needs_migration {} malformed_notes_store
   \<and> distinct (map task_id (tasks_table malformed_notes_store))
   \<and> migrate_task_to_phase {} ''2025-02-01T09:00:00'' malformed_notes_store ''t1''
        ''phase_1_foundation'' family_plan = (malformed_notes_store, False)
   \<and> snd (run_intelligent_migration {} ''2025-02-01T09:00:00'' malformed_notes_store)
   \<and> (\<exists>t'. select_task (fst (run_intelligent_migration {} ''2025-02-01T09:00:00''
                  malformed_notes_store)) ''t1'' = Some t'
          \<and> parent_task t' = None \<and> task_notes t' = SqlNull)
   \<and> (\<exists>t'. select_task (fst (run_intelligent_migration {} ''2025-02-01T09:00:00''
                  malformed_notes_store)) ''t2'' = Some t'
          \<and> parent_task t' = None \<and> task_notes t' = BadText ''[{'')
   \<and> (\<exists>u' n. select_task (fst (run_intelligent_migration {} ''2025-02-01T09:00:00''
                  malformed_notes_store)) ''t3'' = Some u'
          \<and> task_notes u' = JsonText (JArr [n]))"
proof -
  let ?s = malformed_notes_store
  let ?now = "''2025-02-01T09:00:00''"
  let ?t1 = "(example_task ''t1'' ''Setup database'' ''pending'')\<lparr>task_notes := SqlNull\<rparr>"
  let ?t2 = "(example_task ''t2'' ''Database schema'' ''pending'')\<lparr>task_notes := BadText ''[{''\<rparr>"
  let ?t3 = "example_task ''t3'' ''Submit form'' ''pending''"
  have need: "needs_migration {} ?s" by code_simp
  have d: "distinct (map task_id (tasks_table ?s))"
    by (simp add: malformed_notes_store_def example_task_def)
  have m1: "?t1 \<in> set (tasks_table ?s)" and m2: "?t2 \<in> set (tasks_table ?s)"
    and m3: "?t3 \<in> set (tasks_table ?s)"
    by (simp_all add: malformed_notes_store_def)
  have n1: "task_notes ?t1 = SqlNull \<or> task_notes ?t1 = BadText ''[{''" by simp
  have n2: "task_notes ?t2 = SqlNull \<or> task_notes ?t2 = BadText ''[{''" by simp
  have n3: "task_notes ?t3 = JsonText (JArr [])" by (simp add: example_task_def)
  have i1: "task_id ?t1 = ''t1''" and i2: "task_id ?t2 = ''t2''" and i3: "task_id ?t3 = ''t3''"
    by (simp_all add: example_task_def)
  have p1: "parent_task ?t1 = None" and p2: "parent_task ?t2 = None"
    by (simp_all add: example_task_def)
  have v1: "task_notes ?t1 = SqlNull" and v2: "task_notes ?t2 = BadText ''[{''" by simp_all
  have sel: "select_task ?s (task_id ?t1) = Some ?t1"
    by (simp add: select_task_def malformed_notes_store_def example_task_def)
  note r1 = malformed_notes_left_unmigrated [OF need d m1 n1, of ?now]
  note r2 = malformed_notes_left_unmigrated [OF need d m2 n2, of ?now]
  have a: "migrate_task_to_phase {} ?now ?s ''t1'' ''phase_1_foundation'' family_plan = (?s, False)"
    using conjunct1 [OF r1, rule_format, OF sel, of "''phase_1_foundation''" family_plan]
    unfolding i1 by blast
  have b: "snd (run_intelligent_migration {} ?now ?s)"
    using conjunct1 [OF conjunct2 [OF r1]] .
  have c1: "\<exists>t'. select_task (fst (run_intelligent_migration {} ?now ?s)) ''t1'' = Some t'
          \<and> parent_task t' = None \<and> task_notes t' = SqlNull"
    using conjunct1 [OF conjunct2 [OF conjunct2 [OF r1]]] unfolding i1 p1 v1 .
  have c2: "\<exists>t'. select_task (fst (run_intelligent_migration {} ?now ?s)) ''t2'' = Some t'
          \<and> parent_task t' = None \<and> task_notes t' = BadText ''[{''"
    using conjunct1 [OF conjunct2 [OF conjunct2 [OF r2]]] unfolding i2 p2 v2 .
  have c3: "\<exists>u' n. select_task (fst (run_intelligent_migration {} ?now ?s)) ''t3'' = Some u'
          \<and> task_notes u' = JsonText (JArr [n])"
    using conjunct2 [OF conjunct2 [OF conjunct2 [OF r1]], rule_format, OF m3 n3]
    unfolding i3 by simp
  show ?thesis using need d a b c1 c2 c3 by (intro conjI)
qed

section \<open>The coordination list on the classifier's partitions\<close>

lemma str_in_append_left: "str_in k a \<Longrightarrow> str_in k (a @ b)"
proof -
  assume "str_in k a"
  then obtain p q where "a = p @ k @ q" unfolding str_in_iff by blast
  then have "a @ b = p @ k @ (q @ b)" by simp
  then show ?thesis unfolding str_in_iff by blast
qed

lemma title_hit_is_text_hit:
  assumes "any_in [''page'', ''ui'', ''interface'', ''component''] (lower (title t))"
  shows "any_in user_interface_keywords (task_text t)"
proof -
  from assms obtain k where k: "k \<in> set [''page'', ''ui'', ''interface'', ''component'']"
    and h: "str_in k (lower (title t))"
    unfolding any_in_iff by blast
  have "k \<in> set user_interface_keywords"
    using k by (auto simp: user_interface_keywords_def)
  moreover have "str_in k (task_text t)"
    unfolding task_text_def using h by (rule str_in_append_left)
  ultimately show ?thesis unfolding any_in_iff by blast
qed

lemma unclassified_no_ui_hit:
  assumes "first_match_layer (task_text t) = Unclassified"
  shows "\<not> any_in [''page'', ''ui'', ''interface'', ''component''] (lower (title t))"
proof
  assume "any_in [''page'', ''ui'', ''interface'', ''component''] (lower (title t))"
  then have "any_in user_interface_keywords (task_text t)" by (rule title_hit_is_text_hit)
  then have "first_match_layer (task_text t) \<noteq> Unclassified"
    by (simp add: first_match_layer_def layer_rules_def)
  with assms show False by simp
qed

lemma foldl_assign_unclassified_no_ui:
  assumes "\<forall>t \<in> set us. \<not> any_in [''page'', ''ui'', ''interface'', ''component''] (lower (title t))"
  shows "foldl assign_unclassified (f, c) us = (f @ us, c)"
  using assms by (induction us arbitrary: f) (simp_all add: assign_unclassified_def)

text \<open>
  On the partition the classifier produces, no unclassified task has a title with a user
  interface keyword, so the loop over the unclassified tasks moves all of them to
  Foundation and the coordination list is the two buckets.
\<close>

lemma coordination_list_of_layers:
  "coordination_list (analyze_task_complexity_layers ts)
     = user_interface_tasks (analyze_task_complexity_layers ts)
       @ integration_tasks (analyze_task_complexity_layers ts)"
proof -
  let ?ca = "analyze_task_complexity_layers ts"
  have "\<forall>t \<in> set (unclassified_tasks ?ca).
          \<not> any_in [''page'', ''ui'', ''interface'', ''component''] (lower (title t))"
    using layers_filter [of ts Unclassified] unclassified_no_ui_hit by simp
  then show ?thesis
    by (simp add: coordination_list_def foldl_assign_unclassified_no_ui)
qed

lemma recommended_coordination:
  "''phase_3_coordination''
      \<in> phase_id ` set (recommended_phases (determine_optimal_phases da ca))
     \<longleftrightarrow> 5 \<le> length (coordination_list ca)"
  unfolding determine_optimal_phases_def Let_def foundation_step_def intelligence_step_def
    coordination_step_def optimization_step_def coordination_list_def [symmetric]
  by auto

text \<open>
  The first half of claim C3 on the classifier's partitions: below five user interface and
  integration tasks there is no Coordination phase.
\<close>

lemma no_coordination_below_five:
  assumes "length (user_interface_tasks (analyze_task_complexity_layers ts)
                   @ integration_tasks (analyze_task_complexity_layers ts)) < 5"
  shows "''phase_3_coordination''
           \<notin> phase_id ` set (recommended_phases
                 (determine_optimal_phases da (analyze_task_complexity_layers ts)))"
  unfolding recommended_coordination coordination_list_of_layers using assms by simp

section \<open>Runs that create phases\<close>

lemma recommended_phase_ids:
  "p \<in> set (recommended_phases (determine_optimal_phases da ca)) \<Longrightarrow>
     phase_id p \<in> {''phase_1_foundation'', ''phase_2_intelligence'',
                    ''phase_3_coordination'', ''phase_4_optimization''}"
  unfolding determine_optimal_phases_def Let_def foundation_step_def intelligence_step_def
    coordination_step_def optimization_step_def
  by (auto split: if_splits)

lemma like_phase_ids:
  "tid \<in> {''phase_1_foundation'', ''phase_2_intelligence'',
           ''phase_3_coordination'', ''phase_4_optimization''} \<Longrightarrow> like_phase tid"
  by (auto simp: like_phase_def lower_def lower_char_def)

lemma find_Some_id:
  "find (\<lambda>row. task_id row = tid) rows = Some r \<Longrightarrow> tid \<in> task_id ` set rows"
  by (induction rows) (auto split: if_splits)

lemma create_phase_ids:
  "task_id ` set (tasks_table (create_phase now s p))
     = insert (phase_id p) (task_id ` set (tasks_table s))"
proof (cases "select_task s (phase_id p)")
  case None
  then show ?thesis by (simp add: create_phase_def insert_task_def)
next
  case (Some r)
  then have "phase_id p \<in> task_id ` set (tasks_table s)"
    unfolding select_task_def by (rule find_Some_id)
  then show ?thesis using Some by (auto simp: create_phase_def)
qed

lemma create_phases_ids:
  "task_id ` set (tasks_table (foldl (create_phase now) s phases))
     = phase_id ` set phases \<union> task_id ` set (tasks_table s)"
  by (induction phases arbitrary: s) (auto simp: create_phase_ids)

lemma update_task_ids:
  assumes "\<And>row. task_id (f row) = task_id row"
  shows "map task_id (tasks_table (update_task s tid f)) = map task_id (tasks_table s)"
  by (simp add: update_task_def assms comp_def)

lemma migrate_task_ids:
  "map task_id (tasks_table (fst (migrate_task_to_phase failing now s tid pid ps)))
     = map task_id (tasks_table s)"
  by (auto simp: migrate_task_to_phase_def migrate_task_body_cases update_task_ids
      split: option.splits column.splits json.splits)

lemma migrate_all_ids:
  "map task_id (tasks_table (fst (migrate_all failing now ps (s, n) asg)))
     = map task_id (tasks_table s)"
proof (induction asg arbitrary: s n)
  case Nil
  then show ?case by (simp add: migrate_all_Nil)
next
  case (Cons a asg)
  obtain k p where a: "a = (k, p)" by force
  show ?case unfolding a migrate_all_Cons Cons.IH by (rule migrate_task_ids)
qed

lemma fix_all_ids:
  "fix_all now (s, n) ds = Inr (s', n') \<Longrightarrow>
     map task_id (tasks_table s') = map task_id (tasks_table s)"
proof (induction ds arbitrary: s n)
  case Nil
  then show ?case by simp
next
  case (Cons d ds)
  from Cons.prems obtain s1 n1 where st: "fix_dependency now (s, n) d = Inr (s1, n1)"
    and rest: "fix_all now (s1, n1) ds = Inr (s', n')"
    by (auto split: sum.splits)
  have "map task_id (tasks_table s1) = map task_id (tasks_table s)"
    using fix_dependency_result [OF st] by (auto simp: update_task_ids)
  then show ?case using Cons.IH [OF rest] by simp
qed

lemma fix_dependencies_ids:
  "map task_id (tasks_table (fix_dependencies failing now s da ps)) = map task_id (tasks_table s)"
proof (cases "fix_all now (s, 0) (implicit_dependencies da)")
  case (Inl e)
  then show ?thesis by (simp add: fix_dependencies_def split: sum.splits)
next
  case (Inr res)
  obtain s' n' where res: "res = (s', n')" by force
  show ?thesis
    using fix_all_ids [of now s 0 "implicit_dependencies da" s' n'] Inr res
    by (simp add: fix_dependencies_def split: sum.splits)
qed

lemma update_migration_status_tasks:
  "tasks_table (update_migration_status failing now s n dmn ps) = tasks_table s"
  by (simp add: update_migration_status_def split: sum.splits)

text \<open>
  When the first run recommends at least one phase, it leaves a phase row behind, and any
  later run stops at the guard: it returns true and leaves the store as it is.
\<close>

lemma second_run_noop_when_phases_created:
  assumes need: "needs_migration {} s"
    and rec: "recommended_phases
                (determine_optimal_phases (analyze_project_domain (tasks_table s))
                   (analyze_task_complexity_layers (tasks_table s))) \<noteq> []"
  shows "run_intelligent_migration failing' now'
           (fst (run_intelligent_migration {} now s))
         = (fst (run_intelligent_migration {} now s), True)"
proof -
  let ?ts = "tasks_table s"
  let ?dm = "analyze_project_domain ?ts"
  let ?da = "analyze_task_dependencies ?ts"
  let ?ps = "determine_optimal_phases ?dm (analyze_task_complexity_layers ?ts)"
  let ?s1 = "foldl (create_phase now) s (recommended_phases ?ps)"
  let ?s2 = "fst (migrate_all {} now ?ps (?s1, 0) (phase_assignments ?ps))"
  let ?s3 = "fix_dependencies {} now ?s2 ?da ?ps"
  let ?s4 = "update_migration_status {} now ?s3 (length ?ts) ?dm ?ps"
  have ne: "?ts \<noteq> []"
    using need by (auto simp: needs_migration_def get_db_connection_def Let_def)
  have load: "load_all_tasks {} s = ?ts"
    by (simp add: load_all_tasks_def get_db_connection_def)
  have ex: "execute_migration {} now s ?ps ?da = (?s2, True)"
    by (simp add: execute_migration_def get_db_connection_def Let_def split: prod.splits)
  have run: "run_intelligent_migration {} now s = (?s4, True)"
    using need ne by (simp add: run_intelligent_migration_def load Let_def ex)
  from rec obtain p where p: "p \<in> set (recommended_phases ?ps)" by (cases "recommended_phases ?ps") auto
  have lp: "like_phase (phase_id p)"
    using recommended_phase_ids [OF p] by (rule like_phase_ids)
  have "map task_id (tasks_table ?s4) = map task_id (tasks_table ?s1)"
    unfolding update_migration_status_tasks fix_dependencies_ids migrate_all_ids ..
  then have "task_id ` set (tasks_table ?s4) = task_id ` set (tasks_table ?s1)"
    by (metis list.set_map)
  moreover have "phase_id p \<in> task_id ` set (tasks_table ?s1)"
    unfolding create_phases_ids using p by blast
  ultimately have "phase_id p \<in> task_id ` set (tasks_table ?s4)" by simp
  then obtain row where row: "row \<in> set (tasks_table ?s4)" and "phase_id p = task_id row"
    by blast
  with lp have "filter (\<lambda>row. like_phase (task_id row)) (tasks_table ?s4) \<noteq> []"
    by (auto simp: filter_empty_conv)
  then have "\<not> needs_migration failing' ?s4"
    by (auto simp: needs_migration_def Let_def split: sum.splits)
  then show ?thesis unfolding run by (simp add: run_intelligent_migration_def)
qed

end
